theory Spec2Isabelle
  imports Complex_Main "HOL-Library.Word" "HOL-Library.Monad_Syntax"
begin

unbundle bit_operations_syntax

section \<open>Strings and numbers of the host language\<close>

text \<open>
  A string of the program is a sequence of UTF-16 code units; a code unit is modelled by
  its numeric value. String literals of the source are written \<open>lit ''...''\<close>.
\<close>

type_synonym ustring = "nat list"

definition lit :: "string \<Rightarrow> ustring" where
  "lit s = map of_char s"

text \<open>
  \<open>Number.prototype.toString\<close> on a non-negative integer (below \<open>10^21\<close>, which
  all integers of this program are): its decimal digits.
\<close>

function toDecimal :: "nat \<Rightarrow> ustring" where
  "toDecimal n = (if n < 10 then [48 + n] else toDecimal (n div 10) @ [48 + n mod 10])"
  by pat_completeness auto
termination
  by (relation "measure id") auto

text \<open>
  The value of \<open>a / b\<close> for two non-negative integers: \<open>0 / 0\<close> is \<open>NaN\<close>, a
  positive number over \<open>0\<close> is \<open>Infinity\<close>, an exact quotient is a whole number.
  The decimal expansion that \<open>toString\<close> gives a non-integral quotient is outside the
  model: \<open>numberToString\<close> has no value there.
\<close>

datatype quotient = Whole nat | Fraction nat nat | NaN | Infinity

definition divide_number :: "nat \<Rightarrow> nat \<Rightarrow> quotient" where
  "divide_number a b =
     (if b = 0 then (if a = 0 then NaN else Infinity)
      else if b dvd a then Whole (a div b)
      else Fraction a b)"

fun numberToString :: "quotient \<Rightarrow> ustring option" where
  "numberToString (Whole n) = Some (toDecimal n)"
| "numberToString (Fraction a b) = None"
| "numberToString NaN = Some (lit ''NaN'')"
| "numberToString Infinity = Some (lit ''Infinity'')"


section \<open>Aspect ratio\<close>

text \<open>
  \<^verbatim>\<open>const gcd = (a, b) => b === 0 ? a : gcd(b, a % b);\<close>

  The arguments are pixel dimensions (unsigned 32-bit integers held in doubles), on which
  \<open>%\<close> is the exact remainder. The recursion is kept as written; that it returns is a
  theorem below, not part of the definition.
\<close>

partial_function (option) gcd_rec :: "nat \<Rightarrow> nat \<Rightarrow> nat option" where
  "gcd_rec a b = (if b = 0 then Some a else gcd_rec b (a mod b))"

text \<open>
  \<^verbatim>\<open>const divisor = gcd(width, height);
return `${width / divisor}:${height / divisor}`;\<close>

  The result is \<open>None\<close> when the recursion does not return or a quotient has no modelled
  rendering.
\<close>

definition calculateAspectRatio :: "nat \<Rightarrow> nat \<Rightarrow> ustring option" where
  "calculateAspectRatio width height =
     do {
       divisor \<leftarrow> gcd_rec width height;
       w \<leftarrow> numberToString (divide_number width divisor);
       h \<leftarrow> numberToString (divide_number height divisor);
       Some (w @ lit '':'' @ h)
     }"


section \<open>Message digests of the platform\<close>

text \<open>
  \<open>crypto.subtle.digest\<close> is the platform's implementation of the Secure Hash Standard.
  The two algorithms this program requests from it, SHA-1 and SHA-256, are written out
  below on 32-bit words held as natural numbers, every addition and shift reduced modulo
  \<open>2^32\<close>. MD5 (RFC 1321) is written out beside them, as the reference for the digest the
  \<open>md5\<close> field is named after.
\<close>

type_synonym byte = "8 word"

definition add32 :: "nat \<Rightarrow> nat \<Rightarrow> nat" where
  "add32 x y = (x + y) mod 2 ^ 32"

definition not32 :: "nat \<Rightarrow> nat" where
  "not32 x = x XOR 0xffffffff"

definition rotr32 :: "nat \<Rightarrow> nat \<Rightarrow> nat" where
  "rotr32 n x = drop_bit n x OR (push_bit (32 - n) x mod 2 ^ 32)"

definition rotl32 :: "nat \<Rightarrow> nat \<Rightarrow> nat" where
  "rotl32 n x = (push_bit n x mod 2 ^ 32) OR drop_bit (32 - n) x"

definition be32 :: "byte \<Rightarrow> byte \<Rightarrow> byte \<Rightarrow> byte \<Rightarrow> nat" where
  "be32 a b c d =
     push_bit 24 (unat a) OR push_bit 16 (unat b) OR push_bit 8 (unat c) OR unat d"

fun words_be :: "byte list \<Rightarrow> nat list" where
  "words_be (a # b # c # d # rest) = be32 a b c d # words_be rest"
| "words_be _ = []"

fun words_le :: "byte list \<Rightarrow> nat list" where
  "words_le (a # b # c # d # rest) = be32 d c b a # words_le rest"
| "words_le _ = []"

definition bytes_be :: "nat \<Rightarrow> byte list" where
  "bytes_be w =
     [of_nat (drop_bit 24 w mod 256), of_nat (drop_bit 16 w mod 256),
      of_nat (drop_bit 8 w mod 256), of_nat (w mod 256)]"

definition bytes_le :: "nat \<Rightarrow> byte list" where
  "bytes_le w = rev (bytes_be w)"

function chunks :: "nat \<Rightarrow> 'a list \<Rightarrow> 'a list list" where
  "chunks n xs = (if n = 0 \<or> xs = [] then [] else take n xs # chunks n (drop n xs))"
  by pat_completeness auto
termination
  by (relation "measure (\<lambda>(n, xs). length xs)") auto

definition length_be64 :: "nat \<Rightarrow> byte list" where
  "length_be64 n = map (\<lambda>i. of_nat (drop_bit (8 * i) n mod 256)) [7, 6, 5, 4, 3, 2, 1, 0]"

text \<open>
  Padding: the byte \<open>0x80\<close>, zero bytes up to 56 modulo 64, and the bit length of the
  message in 64 bits (big-endian for the SHA family, little-endian for MD5).
\<close>

definition pad_zeros :: "byte list \<Rightarrow> byte list" where
  "pad_zeros m = m @ [0x80] @ replicate ((119 - length m mod 64) mod 64) 0"

definition sha_pad :: "byte list \<Rightarrow> byte list" where
  "sha_pad m = pad_zeros m @ length_be64 (8 * length m)"

definition md5_pad :: "byte list \<Rightarrow> byte list" where
  "md5_pad m = pad_zeros m @ rev (length_be64 (8 * length m))"

definition Ch :: "nat \<Rightarrow> nat \<Rightarrow> nat \<Rightarrow> nat" where
  "Ch x y z = (x AND y) XOR (not32 x AND z)"

definition Maj :: "nat \<Rightarrow> nat \<Rightarrow> nat \<Rightarrow> nat" where
  "Maj x y z = (x AND y) XOR (x AND z) XOR (y AND z)"

definition Parity :: "nat \<Rightarrow> nat \<Rightarrow> nat \<Rightarrow> nat" where
  "Parity x y z = x XOR y XOR z"

subsection \<open>SHA-256\<close>

text \<open>
  The round constants are the first 32 bits of the fractional parts of the cube roots of
  the first 64 primes, the initial hash value those of the square roots of the first 8.
\<close>

definition K256 :: "nat list" where
  "K256 =
    [
     1116352408, 1899447441, 3049323471, 3921009573, 961987163, 1508970993,
     2453635748, 2870763221, 3624381080, 310598401, 607225278, 1426881987,
     1925078388, 2162078206, 2614888103, 3248222580, 3835390401, 4022224774,
     264347078, 604807628, 770255983, 1249150122, 1555081692, 1996064986,
     2554220882, 2821834349, 2952996808, 3210313671, 3336571891, 3584528711,
     113926993, 338241895, 666307205, 773529912, 1294757372, 1396182291,
     1695183700, 1986661051, 2177026350, 2456956037, 2730485921, 2820302411,
     3259730800, 3345764771, 3516065817, 3600352804, 4094571909, 275423344,
     430227734, 506948616, 659060556, 883997877, 958139571, 1322822218,
     1537002063, 1747873779, 1955562222, 2024104815, 2227730452, 2361852424,
     2428436474, 2756734187, 3204031479, 3329325298]"

definition H256 :: "nat list" where
  "H256 =
    [
     1779033703, 3144134277, 1013904242, 2773480762, 1359893119, 2600822924,
     528734635, 1541459225]"

definition Sigma0 :: "nat \<Rightarrow> nat" where
  "Sigma0 x = rotr32 2 x XOR rotr32 13 x XOR rotr32 22 x"

definition Sigma1 :: "nat \<Rightarrow> nat" where
  "Sigma1 x = rotr32 6 x XOR rotr32 11 x XOR rotr32 25 x"

definition sigma0 :: "nat \<Rightarrow> nat" where
  "sigma0 x = rotr32 7 x XOR rotr32 18 x XOR drop_bit 3 x"

definition sigma1 :: "nat \<Rightarrow> nat" where
  "sigma1 x = rotr32 17 x XOR rotr32 19 x XOR drop_bit 10 x"

text \<open>The message schedule is built newest word first: \<open>ws ! i\<close> is the word \<open>i + 1\<close> steps back.\<close>

fun schedule256 :: "nat \<Rightarrow> nat list \<Rightarrow> nat list" where
  "schedule256 0 ws = ws"
| "schedule256 (Suc k) ws =
     schedule256 k
       (add32 (add32 (add32 (sigma1 (ws ! 1)) (ws ! 6)) (sigma0 (ws ! 14))) (ws ! 15) # ws)"

definition shift256 ::
  "nat \<Rightarrow> nat \<Rightarrow> nat \<Rightarrow> nat \<Rightarrow> nat \<Rightarrow> nat \<Rightarrow> nat \<Rightarrow> nat \<Rightarrow> nat \<Rightarrow> nat list" where
  "shift256 a b c d e f g t1 t2 = [add32 t1 t2, a, b, c, add32 d t1, e, f, g]"

fun round256 :: "nat list \<Rightarrow> nat \<times> nat \<Rightarrow> nat list" where
  "round256 [a, b, c, d, e, f, g, h] (k, w) =
     shift256 a b c d e f g (add32 (add32 (add32 (add32 h (Sigma1 e)) (Ch e f g)) k) w)
       (add32 (Sigma0 a) (Maj a b c))"
| "round256 s _ = s"

definition compress256 :: "nat list \<Rightarrow> nat list \<Rightarrow> nat list" where
  "compress256 h block =
     map2 add32 h (foldl round256 h (zip K256 (rev (schedule256 48 (rev block)))))"

definition sha256 :: "byte list \<Rightarrow> byte list" where
  "sha256 m = concat (map bytes_be (foldl compress256 H256 (chunks 16 (words_be (sha_pad m)))))"

subsection \<open>SHA-1\<close>

definition H1 :: "nat list" where
  "H1 = [0x67452301, 0xefcdab89, 0x98badcfe, 0x10325476, 0xc3d2e1f0]"

fun schedule1 :: "nat \<Rightarrow> nat list \<Rightarrow> nat list" where
  "schedule1 0 ws = ws"
| "schedule1 (Suc k) ws =
     schedule1 k (rotl32 1 (ws ! 2 XOR ws ! 7 XOR ws ! 13 XOR ws ! 15) # ws)"

definition f1 :: "nat \<Rightarrow> nat \<Rightarrow> nat \<Rightarrow> nat \<Rightarrow> nat" where
  "f1 t b c d =
     (if t < 20 then Ch b c d else if t < 40 then Parity b c d
      else if t < 60 then Maj b c d else Parity b c d)"

definition K1 :: "nat \<Rightarrow> nat" where
  "K1 t =
     (if t < 20 then 0x5a827999 else if t < 40 then 0x6ed9eba1
      else if t < 60 then 0x8f1bbcdc else 0xca62c1d6)"

fun round1 :: "nat list \<Rightarrow> nat \<times> nat \<Rightarrow> nat list" where
  "round1 [a, b, c, d, e] (t, w) =
     [add32 (add32 (add32 (add32 (rotl32 5 a) (f1 t b c d)) e) (K1 t)) w, a, rotl32 30 b, c, d]"
| "round1 s _ = s"

definition compress1 :: "nat list \<Rightarrow> nat list \<Rightarrow> nat list" where
  "compress1 h block =
     map2 add32 h (foldl round1 h (zip [0..<80] (rev (schedule1 64 (rev block)))))"

definition sha1 :: "byte list \<Rightarrow> byte list" where
  "sha1 m = concat (map bytes_be (foldl compress1 H1 (chunks 16 (words_be (sha_pad m)))))"

subsection \<open>MD5\<close>

definition md5_K :: "nat list" where
  "md5_K =
    [
     0xd76aa478, 0xe8c7b756, 0x242070db, 0xc1bdceee, 0xf57c0faf, 0x4787c62a,
     0xa8304613, 0xfd469501, 0x698098d8, 0x8b44f7af, 0xffff5bb1, 0x895cd7be,
     0x6b901122, 0xfd987193, 0xa679438e, 0x49b40821, 0xf61e2562, 0xc040b340,
     0x265e5a51, 0xe9b6c7aa, 0xd62f105d, 0x02441453, 0xd8a1e681, 0xe7d3fbc8,
     0x21e1cde6, 0xc33707d6, 0xf4d50d87, 0x455a14ed, 0xa9e3e905, 0xfcefa3f8,
     0x676f02d9, 0x8d2a4c8a, 0xfffa3942, 0x8771f681, 0x6d9d6122, 0xfde5380c,
     0xa4beea44, 0x4bdecfa9, 0xf6bb4b60, 0xbebfbc70, 0x289b7ec6, 0xeaa127fa,
     0xd4ef3085, 0x04881d05, 0xd9d4d039, 0xe6db99e5, 0x1fa27cf8, 0xc4ac5665,
     0xf4292244, 0x432aff97, 0xab9423a7, 0xfc93a039, 0x655b59c3, 0x8f0ccc92,
     0xffeff47d, 0x85845dd1, 0x6fa87e4f, 0xfe2ce6e0, 0xa3014314, 0x4e0811a1,
     0xf7537e82, 0xbd3af235, 0x2ad7d2bb, 0xeb86d391]"

definition md5_s :: "nat list" where
  "md5_s =
    [7, 12, 17, 22, 7, 12, 17, 22, 7, 12, 17, 22, 7, 12, 17, 22,
     5, 9, 14, 20, 5, 9, 14, 20, 5, 9, 14, 20, 5, 9, 14, 20,
     4, 11, 16, 23, 4, 11, 16, 23, 4, 11, 16, 23, 4, 11, 16, 23,
     6, 10, 15, 21, 6, 10, 15, 21, 6, 10, 15, 21, 6, 10, 15, 21]"

definition md5_H :: "nat list" where
  "md5_H = [0x67452301, 0xefcdab89, 0x98badcfe, 0x10325476]"

definition md5_f :: "nat \<Rightarrow> nat \<Rightarrow> nat \<Rightarrow> nat \<Rightarrow> nat" where
  "md5_f i b c d =
     (if i < 16 then (b AND c) OR (not32 b AND d)
      else if i < 32 then (d AND b) OR (not32 d AND c)
      else if i < 48 then Parity b c d
      else c XOR (b OR not32 d))"

definition md5_g :: "nat \<Rightarrow> nat" where
  "md5_g i =
     (if i < 16 then i else if i < 32 then (5 * i + 1) mod 16
      else if i < 48 then (3 * i + 5) mod 16 else (7 * i) mod 16)"

fun md5_round :: "nat list \<Rightarrow> nat list \<Rightarrow> nat \<times> nat \<times> nat \<Rightarrow> nat list" where
  "md5_round m [a, b, c, d] (i, k, s) =
     [d, add32 b (rotl32 s (add32 (add32 (add32 (md5_f i b c d) a) k) (m ! md5_g i))), b, c]"
| "md5_round m st _ = st"

definition md5_compress :: "nat list \<Rightarrow> nat list \<Rightarrow> nat list" where
  "md5_compress h block =
     map2 add32 h (foldl (md5_round block) h (zip [0..<64] (zip md5_K md5_s)))"

definition md5 :: "byte list \<Rightarrow> byte list" where
  "md5 m = concat (map bytes_le (foldl md5_compress md5_H (chunks 16 (words_le (md5_pad m)))))"

subsection \<open>Hexadecimal rendering\<close>

text \<open>
  \<^verbatim>\<open>b.toString(16).padStart(2, '0')\<close>: the lowercase hexadecimal digits of a byte, padded
  on the left to two characters.
\<close>

definition hexDigit :: "nat \<Rightarrow> nat" where
  "hexDigit d = (if d < 10 then 48 + d else 87 + d)"

function toString16 :: "nat \<Rightarrow> ustring" where
  "toString16 n = (if n < 16 then [hexDigit n] else toString16 (n div 16) @ [hexDigit (n mod 16)])"
  by pat_completeness auto
termination
  by (relation "measure id") auto

definition padStart :: "ustring \<Rightarrow> nat \<Rightarrow> nat \<Rightarrow> ustring" where
  "padStart s n c = replicate (n - length s) c @ s"

definition hexByte :: "byte \<Rightarrow> ustring" where
  "hexByte b = padStart (toString16 (unat b)) 2 48"

definition hexString :: "byte list \<Rightarrow> ustring" where
  "hexString bs = concat (map hexByte bs)"

section \<open>Files, promises and the platform\<close>

text \<open>
  An asynchronous operation either never settles (\<open>None\<close>), is rejected with an error
  (\<open>Some (Inl e)\<close>), or is fulfilled with a value (\<open>Some (Inr v)\<close>). A synchronous
  computation that may throw is the sum alone.
\<close>

datatype error = NotReadableError | RangeError | NotSupportedError | DecodeError

type_synonym 'a promise = "(error + 'a) option"

definition fulfilled :: "'a \<Rightarrow> 'a promise" where
  "fulfilled v = Some (Inr v)"

definition rejected :: "error \<Rightarrow> 'a promise" where
  "rejected e = Some (Inl e)"

definition await :: "'a promise \<Rightarrow> ('a \<Rightarrow> 'b promise) \<Rightarrow> 'b promise" where
  "await p k = (case p of None \<Rightarrow> None | Some (Inl e) \<Rightarrow> Some (Inl e) | Some (Inr v) \<Rightarrow> k v)"

definition tryCatch :: "'a promise \<Rightarrow> (error \<Rightarrow> 'a promise) \<Rightarrow> 'a promise" where
  "tryCatch body handler =
     (case body of None \<Rightarrow> None | Some (Inl e) \<Rightarrow> handler e | Some (Inr v) \<Rightarrow> Some (Inr v))"

definition bindE :: "error + 'a \<Rightarrow> ('a \<Rightarrow> error + 'b) \<Rightarrow> error + 'b" where
  "bindE r k = (case r of Inl e \<Rightarrow> Inl e | Inr v \<Rightarrow> k v)"

text \<open>
  A \<open>File\<close>: its declared name, MIME type and time stamp, and its bytes. Reading the bytes
  fails as a whole when the file is not readable; \<open>file.size\<close> is the number of bytes.
\<close>

record fileHandle =
  file_name :: ustring
  file_type :: ustring
  file_lastModified :: int
  file_bytes :: "byte list"
  file_readable :: bool

definition file_size :: "fileHandle \<Rightarrow> nat" where
  "file_size f = length (file_bytes f)"

text \<open>\<^verbatim>\<open>await file.arrayBuffer()\<close>\<close>

definition arrayBuffer :: "fileHandle \<Rightarrow> byte list promise" where
  "arrayBuffer f = (if file_readable f then fulfilled (file_bytes f) else rejected NotReadableError)"

text \<open>\<^verbatim>\<open>await file.slice(start, end).arrayBuffer()\<close>\<close>

definition sliceBuffer :: "fileHandle \<Rightarrow> nat \<Rightarrow> nat \<Rightarrow> byte list promise" where
  "sliceBuffer f start end =
     (if file_readable f then fulfilled (take (end - start) (drop start (file_bytes f)))
      else rejected NotReadableError)"

text \<open>
  Values of the dynamically typed tag dictionary: numbers and strings, with the
  truthiness the source tests them by.
\<close>

datatype js_value = Num real | Str ustring

fun truthy :: "js_value \<Rightarrow> bool" where
  "truthy (Num x) = (x \<noteq> 0)"
| "truthy (Str s) = (s \<noteq> [])"

type_synonym pixel = "byte \<times> byte \<times> byte \<times> byte"

datatype pixel_outcome = LoadFailed | NoContext | Sampled "pixel list"

record media_info =
  media_duration :: real
  media_videoWidth :: nat
  media_videoHeight :: nat

text \<open>
  What the browser answers during one extraction, for the file at hand: the outcome of
  decoding it as an image (with the 5 second timeout) and of sampling its pixels on a
  canvas, the tag dictionary that the EXIF library hands to its callback (empty when it
  finds none or throws, \<open>None\<close> when it never calls back), the outcome of loading it as a
  media element, the two clock readings, the text decoders and the case mapping of
  strings.
\<close>

record platform =
  imageDimensions :: "(nat \<times> nat) option"
  exifTags :: "(ustring \<times> js_value) list option"
  pixelSample :: pixel_outcome
  mediaInfo :: "media_info option"
  startTime :: real
  endTime :: real
  decodeUtf8 :: "byte list \<Rightarrow> ustring"
  decodeLatin1 :: "byte list \<Rightarrow> ustring"
  toLowerCase :: "ustring \<Rightarrow> ustring"

section \<open>String operations\<close>

definition startsWith :: "ustring \<Rightarrow> ustring \<Rightarrow> bool" where
  "startsWith s p = (take (length p) s = p)"

definition endsWith :: "ustring \<Rightarrow> ustring \<Rightarrow> bool" where
  "endsWith s p = (length p \<le> length s \<and> drop (length s - length p) s = p)"

fun str_includes :: "ustring \<Rightarrow> ustring \<Rightarrow> bool" where
  "str_includes [] p = (p = [])"
| "str_includes (c # cs) p = (startsWith (c # cs) p \<or> str_includes cs p)"

text \<open>\<open>s.split(sep)\<close> for a separator of one code unit.\<close>

fun splitOn :: "nat \<Rightarrow> ustring \<Rightarrow> ustring \<Rightarrow> ustring list" where
  "splitOn sep cur [] = [cur]"
| "splitOn sep cur (c # cs) =
     (if c = sep then cur # splitOn sep [] cs else splitOn sep (cur @ [c]) cs)"

text \<open>The white space of \<open>\s\<close> and of \<open>trim\<close>.\<close>

definition isSpace :: "nat \<Rightarrow> bool" where
  "isSpace c \<longleftrightarrow>
     c \<in> {9, 10, 11, 12, 13, 32, 160, 5760, 8232, 8233, 8239, 8287, 12288, 65279}
     \<or> (8192 \<le> c \<and> c \<le> 8202)"

text \<open>\<open>s.split(/\s+/)\<close>: \<open>inSep\<close> holds while a run of white space is being skipped.\<close>

fun splitSpaces :: "bool \<Rightarrow> ustring \<Rightarrow> ustring \<Rightarrow> ustring list" where
  "splitSpaces inSep cur [] = [cur]"
| "splitSpaces inSep cur (c # cs) =
     (if isSpace c then (if inSep then splitSpaces True cur cs else cur # splitSpaces True [] cs)
      else splitSpaces False (cur @ [c]) cs)"

definition countWords :: "ustring \<Rightarrow> nat" where
  "countWords s = length (filter (\<lambda>word. length word > 0) (splitSpaces False [] s))"

definition trim :: "ustring \<Rightarrow> ustring" where
  "trim s = rev (dropWhile isSpace (rev (dropWhile isSpace s)))"

text \<open>\<open>xs.join(sep)\<close>\<close>

fun join :: "ustring \<Rightarrow> ustring list \<Rightarrow> ustring" where
  "join sep [] = []"
| "join sep [x] = x"
| "join sep (x # y # ys) = x @ sep @ join sep (y # ys)"

text \<open>
  \<open>toUpperCase\<close> is applied by the program to hexadecimal digits and spaces only, where
  it maps \<open>a..z\<close> to \<open>A..Z\<close> and leaves the rest.
\<close>

definition toUpperCaseAscii :: "ustring \<Rightarrow> ustring" where
  "toUpperCaseAscii s = map (\<lambda>c. if 97 \<le> c \<and> c \<le> 122 then c - 32 else c) s"

section \<open>Numbers\<close>

text \<open>
  A JavaScript number is an IEEE 754 double. A finite double is modelled by the real it
  denotes, and an arithmetic operation by the exact operation followed by the rounding to
  the nearest double, ties to the even significand. A double has a significand of 53 bits;
  the exponent of a normal double is at least \<open>-1022\<close>, and below \<open>2^-1022\<close> the doubles
  keep the spacing \<open>2^-1074\<close>. The numbers of this program stay far below \<open>2^1024\<close> (a
  buffer has fewer than \<open>2^53\<close> bytes), so the overflow to \<open>Infinity\<close> is left out.
\<close>

definition roundHalfEven :: "real \<Rightarrow> int" where
  "roundHalfEven x =
     (if x - of_int \<lfloor>x\<rfloor> < 1 / 2 then \<lfloor>x\<rfloor>
      else if x - of_int \<lfloor>x\<rfloor> > 1 / 2 then \<lfloor>x\<rfloor> + 1
      else if even \<lfloor>x\<rfloor> then \<lfloor>x\<rfloor> else \<lfloor>x\<rfloor> + 1)"

text \<open>The exponent of the last bit of the significand of the doubles next to \<open>x\<close>.\<close>

definition ulpExponent :: "real \<Rightarrow> int" where
  "ulpExponent x = max \<lfloor>log 2 \<bar>x\<bar>\<rfloor> (- 1022) - 52"

definition toDouble :: "real \<Rightarrow> real" where
  "toDouble x =
     (if x = 0 then 0
      else of_int (roundHalfEven (x / 2 powi ulpExponent x)) * 2 powi ulpExponent x)"

text \<open>The operators \<open>+\<close>, \<open>-\<close>, \<open>*\<close> and \<open>/\<close> on numbers.\<close>

definition numAdd :: "real \<Rightarrow> real \<Rightarrow> real" where
  "numAdd x y = toDouble (x + y)"

definition numSub :: "real \<Rightarrow> real \<Rightarrow> real" where
  "numSub x y = toDouble (x - y)"

definition numMul :: "real \<Rightarrow> real \<Rightarrow> real" where
  "numMul x y = toDouble (x * y)"

definition numDiv :: "real \<Rightarrow> real \<Rightarrow> real" where
  "numDiv x y = toDouble (x / y)"

text \<open>
  \<open>Math.round(x)\<close> is \<open>\<lfloor>x + 1/2\<rfloor>\<close>, without rounding error; \<open>Math.round(x * 100) / 100\<close>
  multiplies and divides doubles.
\<close>

definition mathRound :: "real \<Rightarrow> int" where
  "mathRound x = \<lfloor>x + 1 / 2\<rfloor>"

definition roundHundredths :: "real \<Rightarrow> real" where
  "roundHundredths x = numDiv (of_int (mathRound (numMul x 100))) 100"

text \<open>
  The entropy alone is modelled over the reals, its logarithms and its sum exact
  (\<open>Math.log2\<close> is an approximation that the language leaves to the implementation);
  there \<open>Math.round(x * 100) / 100\<close> is the rounding of a real.
\<close>

definition round2 :: "real \<Rightarrow> real" where
  "round2 x = of_int (mathRound (x * 100)) / 100"

section \<open>The metadata record\<close>

text \<open>
  \<open>ExtendedMetadata\<close>: five identity fields and the optional fields, absent (\<open>None\<close>)
  until a stage assigns them.
\<close>

record ExtendedMetadata =
  md_name :: ustring
  md_size :: nat
  md_type :: ustring
  lastModified :: int
  extension :: ustring
  dimensions :: "(nat \<times> nat) option"
  exifData :: "(ustring \<times> js_value) list option"
  colorDepth :: "nat option"
  hasAlpha :: "bool option"
  aspectRatio :: "ustring option"
  dpi :: "(js_value \<times> js_value) option"
  duration :: "real option"
  bitrate :: "int option"
  sampleRate :: "nat option"
  channels :: "nat option"
  codec :: "ustring option"
  pageCount :: "nat option"
  wordCount :: "nat option"
  characterCount :: "nat option"
  lineCount :: "nat option"
  compressionRatio :: "real option"
  checksum :: "ustring option"
  md5_field :: "ustring option"
  encoding :: "ustring option"
  language :: "ustring option"
  creator :: "js_value option"
  subject :: "js_value option"
  md_keywords :: "js_value list option"
  entropy :: "real option"
  isExecutable :: "bool option"
  architecture :: "ustring option"
  isEncrypted :: "bool option"
  hasMetadata :: "bool option"
  fileSignature :: "ustring option"
  processingTime :: "real option"

text \<open>\<^verbatim>\<open>filename.split('.').pop()?.toLowerCase() || ''\<close>\<close>

definition getFileExtension :: "platform \<Rightarrow> ustring \<Rightarrow> ustring" where
  "getFileExtension env filename = toLowerCase env (last (splitOn 46 [] filename))"

definition basicMetadata :: "platform \<Rightarrow> fileHandle \<Rightarrow> ExtendedMetadata" where
  "basicMetadata env f =
     \<lparr> md_name = file_name f, md_size = file_size f, md_type = file_type f,
       lastModified = file_lastModified f, extension = getFileExtension env (file_name f),
       dimensions = None, exifData = None, colorDepth = None, hasAlpha = None,
       aspectRatio = None, dpi = None, duration = None, bitrate = None, sampleRate = None,
       channels = None, codec = None, pageCount = None, wordCount = None,
       characterCount = None, lineCount = None, compressionRatio = None, checksum = None,
       md5_field = None, encoding = None, language = None, creator = None, subject = None,
       md_keywords = None, entropy = None, isExecutable = None, architecture = None,
       isEncrypted = None, hasMetadata = None, fileSignature = None, processingTime = None \<rparr>"

section \<open>Universal analyzers\<close>

text \<open>
  \<open>getFileSignature\<close>: the first 16 bytes in hexadecimal, separated by spaces, in upper
  case; the empty string when the read fails.
\<close>

definition getFileSignature :: "fileHandle \<Rightarrow> ustring promise" where
  "getFileSignature f =
     tryCatch
       (await (sliceBuffer f 0 16) (\<lambda>bytes.
          fulfilled (toUpperCaseAscii (join (lit '' '') (map hexByte bytes)))))
       (\<lambda>error. fulfilled [])"

text \<open>
  \<open>crypto.subtle.digest(algorithm, data)\<close>, for the algorithm names this program passes
  to it. Any other name is rejected here; SHA-384 and SHA-512, which the platform
  also knows, are never requested.
\<close>

definition subtle_digest :: "ustring \<Rightarrow> byte list \<Rightarrow> byte list promise" where
  "subtle_digest algorithm data =
     (if algorithm = lit ''SHA-1'' then fulfilled (sha1 data)
      else if algorithm = lit ''SHA-256'' then fulfilled (sha256 data)
      else rejected NotSupportedError)"

text \<open>
  \<open>calculateChecksum\<close>: when asked for \<open>MD5\<close> it requests \<open>SHA-1\<close> from the platform.
\<close>

definition calculateChecksum :: "fileHandle \<Rightarrow> ustring \<Rightarrow> ustring promise" where
  "calculateChecksum f algorithm =
     tryCatch
       (await (arrayBuffer f) (\<lambda>buffer.
        await (if algorithm = lit ''MD5'' then subtle_digest (lit ''SHA-1'') buffer
               else subtle_digest algorithm buffer) (\<lambda>hashBuffer.
        fulfilled (join [] (map hexByte hashBuffer)))))
       (\<lambda>error. fulfilled [])"

text \<open>
  \<open>calculateEntropy\<close>: the byte histogram of the first MiB, then the sum of
  \<open>- p * log2 p\<close> over the buckets that are not empty, rounded to two decimals; \<open>0\<close>
  when the read fails.
\<close>

definition histogramStep :: "byte \<Rightarrow> nat list \<Rightarrow> nat list" where
  "histogramStep b frequency = frequency[unat b := frequency ! unat b + 1]"

definition histogram :: "byte list \<Rightarrow> nat list" where
  "histogram bytes = fold histogramStep bytes (replicate 256 0)"

definition entropyStep :: "nat \<Rightarrow> nat \<Rightarrow> real \<Rightarrow> real" where
  "entropyStep len freq acc =
     (if freq > 0 then acc - (real freq / real len) * log 2 (real freq / real len)
      else acc)"

definition entropyOf :: "byte list \<Rightarrow> real" where
  "entropyOf bytes = round2 (fold (entropyStep (length bytes)) (histogram bytes) 0)"

definition calculateEntropy :: "fileHandle \<Rightarrow> real promise" where
  "calculateEntropy f =
     tryCatch
       (await (sliceBuffer f 0 (min (file_size f) (1024 * 1024))) (\<lambda>bytes.
          fulfilled (entropyOf bytes)))
       (\<lambda>error. fulfilled 0)"

definition executableExtensions :: "ustring list" where
  "executableExtensions =
     map lit [''exe'', ''msi'', ''app'', ''deb'', ''rpm'', ''dmg'', ''pkg'', ''run'', ''bin'',
              ''com'', ''bat'', ''cmd'', ''sh'']"

definition isExecutableFile :: "platform \<Rightarrow> ustring \<Rightarrow> bool" where
  "isExecutableFile env filename \<longleftrightarrow> getFileExtension env filename \<in> set executableExtensions"

definition encryptionSignatures :: "byte list list" where
  "encryptionSignatures =
     [[0x50, 0x4B, 0x03, 0x04], [0x37, 0x7A, 0xBC, 0xAF], [0x52, 0x61, 0x72, 0x21]]"

definition signatureMatches :: "byte list \<Rightarrow> byte list \<Rightarrow> bool" where
  "signatureMatches bytes sig \<longleftrightarrow> length bytes \<ge> length sig \<and> take (length sig) bytes = sig"

definition detectEncryption :: "fileHandle \<Rightarrow> bool promise" where
  "detectEncryption f =
     tryCatch
       (await (sliceBuffer f 0 1024) (\<lambda>bytes.
          if list_ex (signatureMatches bytes) encryptionSignatures then fulfilled True
          else await (calculateEntropy f) (\<lambda>e. fulfilled (e > 7.5))))
       (\<lambda>error. fulfilled False)"

text \<open>
  \<open>getExifData\<close>: the promise is only ever resolved, with the tags the library hands to
  its callback, or with the empty dictionary; it stays pending when the library never
  calls back.
\<close>

definition getExifData :: "platform \<Rightarrow> fileHandle \<Rightarrow> (ustring \<times> js_value) list promise" where
  "getExifData env f = (case exifTags env of None \<Rightarrow> None | Some tags \<Rightarrow> fulfilled tags)"

definition hasEmbeddedMetadata :: "platform \<Rightarrow> fileHandle \<Rightarrow> bool promise" where
  "hasEmbeddedMetadata env f =
     tryCatch
       (if startsWith (file_type f) (lit ''image/'') then
          await (getExifData env f) (\<lambda>exifData. fulfilled (length exifData > 0))
        else if file_type f = lit ''application/pdf'' then
          await (sliceBuffer f 0 2048) (\<lambda>buffer.
            fulfilled (str_includes (decodeLatin1 env buffer) (lit ''/Info'')
                       \<or> str_includes (decodeLatin1 env buffer) (lit ''/Metadata'')))
        else fulfilled False)
       (\<lambda>error. fulfilled False)"

section \<open>Image extractor\<close>

text \<open>\<open>hasAlphaChannel\<close>: some sampled pixel has an alpha byte below 255.\<close>

definition hasAlphaChannel :: "pixel list \<Rightarrow> bool" where
  "hasAlphaChannel data = list_ex (\<lambda>(r, g, b, a). a < 255) data"

definition pixelColor :: "pixel \<Rightarrow> nat" where
  "pixelColor p = (case p of (r, g, b, a) \<Rightarrow>
     push_bit 16 (unat r) OR push_bit 8 (unat g) OR unat b)"

text \<open>
  The loop of \<open>estimateColorDepth\<close> over the pixels, collecting the distinct colours;
  \<open>None\<close> is its early return once more than 65536 colours have been seen.
\<close>

fun collectColors :: "pixel list \<Rightarrow> nat list \<Rightarrow> nat list option" where
  "collectColors [] uniqueColors = Some uniqueColors"
| "collectColors (p # ps) uniqueColors =
     (if length (List.insert (pixelColor p) uniqueColors) > 65536 then None
      else collectColors ps (List.insert (pixelColor p) uniqueColors))"

definition estimateColorDepth :: "pixel list \<Rightarrow> nat" where
  "estimateColorDepth data =
     (case collectColors data [] of
        None \<Rightarrow> 24
      | Some uniqueColors \<Rightarrow>
          if length uniqueColors \<le> 2 then 1
          else if length uniqueColors \<le> 16 then 4
          else if length uniqueColors \<le> 256 then 8
          else if length uniqueColors \<le> 65536 then 16
          else 24)"

text \<open>The three guarded blocks of \<open>extractImageMetadata\<close>, each with its own handler.\<close>

definition imageDimensionsBlock :: "platform \<Rightarrow> ExtendedMetadata \<Rightarrow> ExtendedMetadata promise" where
  "imageDimensionsBlock env metadata =
     tryCatch
       (case imageDimensions env of
          None \<Rightarrow> rejected DecodeError
        | Some (width, height) \<Rightarrow>
            (case calculateAspectRatio width height of
               None \<Rightarrow> None
             | Some ratio \<Rightarrow>
                 fulfilled (metadata\<lparr>dimensions := Some (width, height),
                                      aspectRatio := Some ratio\<rparr>)))
       (\<lambda>error. fulfilled metadata)"

definition tag :: "(ustring \<times> js_value) list \<Rightarrow> string \<Rightarrow> js_value option" where
  "tag exif key = map_of exif (lit key)"

definition tagTruthy :: "(ustring \<times> js_value) list \<Rightarrow> string \<Rightarrow> bool" where
  "tagTruthy exif key = (case tag exif key of None \<Rightarrow> False | Some v \<Rightarrow> truthy v)"

definition exifBlock :: "platform \<Rightarrow> fileHandle \<Rightarrow> ExtendedMetadata \<Rightarrow> ExtendedMetadata promise" where
  "exifBlock env f metadata =
     tryCatch
       (await (getExifData env f) (\<lambda>exif.
          let m1 = metadata\<lparr>exifData := Some exif\<rparr>;
              m2 = (if tagTruthy exif ''XResolution'' \<and> tagTruthy exif ''YResolution''
                    then m1\<lparr>dpi := Some (the (tag exif ''XResolution''),
                                          the (tag exif ''YResolution''))\<rparr>
                    else m1);
              m3 = (if tagTruthy exif ''Artist'' then m2\<lparr>creator := tag exif ''Artist''\<rparr> else m2);
              m4 = (if tagTruthy exif ''ImageDescription''
                    then m3\<lparr>subject := tag exif ''ImageDescription''\<rparr> else m3);
              m5 = (if tagTruthy exif ''Software''
                    then m4\<lparr>md_keywords := Some [the (tag exif ''Software'')]\<rparr> else m4)
          in fulfilled m5))
       (\<lambda>error. fulfilled metadata)"

definition pixelBlock :: "platform \<Rightarrow> ExtendedMetadata \<Rightarrow> ExtendedMetadata promise" where
  "pixelBlock env metadata =
     tryCatch
       (case pixelSample env of
          LoadFailed \<Rightarrow> rejected DecodeError
        | NoContext \<Rightarrow> fulfilled metadata
        | Sampled imageData \<Rightarrow>
            fulfilled (metadata\<lparr>hasAlpha := Some (hasAlphaChannel imageData),
                                 colorDepth := Some (estimateColorDepth imageData)\<rparr>))
       (\<lambda>error. fulfilled metadata)"

definition extractImageMetadata ::
  "platform \<Rightarrow> fileHandle \<Rightarrow> ExtendedMetadata \<Rightarrow> ExtendedMetadata promise" where
  "extractImageMetadata env f metadata =
     await (imageDimensionsBlock env metadata) (\<lambda>m1.
     await (exifBlock env f m1) (\<lambda>m2.
     pixelBlock env m2))"

section \<open>Media extractor\<close>

definition extractMediaMetadata ::
  "platform \<Rightarrow> fileHandle \<Rightarrow> ExtendedMetadata \<Rightarrow> ExtendedMetadata promise" where
  "extractMediaMetadata env f metadata =
     tryCatch
       (case mediaInfo env of
          None \<Rightarrow> rejected DecodeError
        | Some mediaElement \<Rightarrow>
            await
              (let m1 = metadata\<lparr>duration := Some (media_duration mediaElement)\<rparr>
               in if startsWith (file_type f) (lit ''video/'') \<and> media_videoWidth mediaElement > 0
                  then (case calculateAspectRatio (media_videoWidth mediaElement)
                                                  (media_videoHeight mediaElement) of
                          None \<Rightarrow> None
                        | Some ratio \<Rightarrow>
                            fulfilled (m1\<lparr>dimensions := Some (media_videoWidth mediaElement,
                                                                media_videoHeight mediaElement),
                                           aspectRatio := Some ratio\<rparr>))
                  else fulfilled m1)
              (\<lambda>m2. if media_duration mediaElement \<noteq> 0 \<and> media_duration mediaElement > 0
                     then fulfilled (m2\<lparr>bitrate :=
                            Some (mathRound (numDiv (real (file_size f * 8))
                                                  (media_duration mediaElement)))\<rparr>)
                     else fulfilled m2))
       (\<lambda>error. fulfilled metadata)"

section \<open>Document extractor\<close>

text \<open>
  The patterns of \<open>extractPDFMetadata\<close>, each matched at the head of a string: the
  literal, any white space, the opening delimiter, the longest run free of the closing
  character, and the closing delimiter. The result is the captured run.
\<close>

fun stripPrefix :: "ustring \<Rightarrow> ustring \<Rightarrow> ustring option" where
  "stripPrefix [] s = Some s"
| "stripPrefix (p # ps) [] = None"
| "stripPrefix (p # ps) (c # cs) = (if p = c then stripPrefix ps cs else None)"

definition matchDelimited ::
  "ustring \<Rightarrow> ustring \<Rightarrow> nat \<Rightarrow> ustring \<Rightarrow> ustring \<Rightarrow> ustring option" where
  "matchDelimited key opening closer closing s =
     (case stripPrefix key s of
        None \<Rightarrow> None
      | Some r \<Rightarrow>
          (case stripPrefix opening (dropWhile isSpace r) of
             None \<Rightarrow> None
           | Some body \<Rightarrow>
               if startsWith (dropWhile (\<lambda>c. c \<noteq> closer) body) closing
               then Some (takeWhile (\<lambda>c. c \<noteq> closer) body)
               else None))"

text \<open>\<open>s.match(pattern)\<close> without the global flag: the leftmost match.\<close>

fun firstMatch :: "(ustring \<Rightarrow> 'a option) \<Rightarrow> ustring \<Rightarrow> 'a option" where
  "firstMatch m [] = m []"
| "firstMatch m (c # cs) = (case m (c # cs) of Some r \<Rightarrow> Some r | None \<Rightarrow> firstMatch m cs)"

text \<open>\<^verbatim>\<open>/\/Info\s*<<([^>]*)>>/\<close>\<close>

definition matchInfo :: "ustring \<Rightarrow> ustring option" where
  "matchInfo text = firstMatch (matchDelimited (lit ''/Info'') (lit ''<<'') 62 (lit ''>>'')) text"

text \<open>\<^verbatim>\<open>/\/Title\s*\(([^)]*)\)/\<close> and its two siblings\<close>

definition matchEntry :: "string \<Rightarrow> ustring \<Rightarrow> ustring option" where
  "matchEntry key info = firstMatch (matchDelimited (lit key) (lit ''('') 41 (lit '')'')) info"

text \<open>
  \<^verbatim>\<open>/\/Type\s*\/Page[^s]/g\<close>: the length of the match at the head of a string, and the
  number of matches found from left to right, each search resuming after the last match
  (\<open>skip\<close> counts the characters of that match still to be passed).
\<close>

definition matchPage :: "ustring \<Rightarrow> nat option" where
  "matchPage s =
     (case stripPrefix (lit ''/Type'') s of
        None \<Rightarrow> None
      | Some r \<Rightarrow>
          (case stripPrefix (lit ''/Page'') (dropWhile isSpace r) of
             None \<Rightarrow> None
           | Some [] \<Rightarrow> None
           | Some (c # rest) \<Rightarrow> if c = 115 then None else Some (length s - length rest)))"

fun countPages :: "nat \<Rightarrow> ustring \<Rightarrow> nat" where
  "countPages skip [] = 0"
| "countPages skip (c # cs) =
     (if skip > 0 then countPages (skip - 1) cs
      else case matchPage (c # cs) of
             Some n \<Rightarrow> 1 + countPages (n - 1) cs
           | None \<Rightarrow> countPages 0 cs)"

text \<open>\<^verbatim>\<open>text.replace(/[^\x20-\x7E]/g, ' ').replace(/\s+/g, ' ')\<close>\<close>

definition replaceNonPrintable :: "ustring \<Rightarrow> ustring" where
  "replaceNonPrintable s = map (\<lambda>c. if 32 \<le> c \<and> c \<le> 126 then c else 32) s"

fun collapseSpaces :: "bool \<Rightarrow> ustring \<Rightarrow> ustring" where
  "collapseSpaces inRun [] = []"
| "collapseSpaces inRun (c # cs) =
     (if isSpace c then (if inRun then collapseSpaces True cs else 32 # collapseSpaces True cs)
      else c # collapseSpaces False cs)"

definition pdfInfoFields :: "ustring \<Rightarrow> ExtendedMetadata \<Rightarrow> ExtendedMetadata" where
  "pdfInfoFields text metadata =
     (case matchInfo text of
        None \<Rightarrow> metadata
      | Some info \<Rightarrow>
          let m1 = (case matchEntry ''/Title'' info of
                      None \<Rightarrow> metadata | Some t \<Rightarrow> metadata\<lparr>subject := Some (Str t)\<rparr>);
              m2 = (case matchEntry ''/Author'' info of
                      None \<Rightarrow> m1 | Some a \<Rightarrow> m1\<lparr>creator := Some (Str a)\<rparr>);
              m3 = (case matchEntry ''/Keywords'' info of
                      None \<Rightarrow> m2
                    | Some k \<Rightarrow> m2\<lparr>md_keywords := Some (map (\<lambda>k. Str (trim k)) (splitOn 44 [] k))\<rparr>)
          in m3)"

definition extractPDFMetadata ::
  "platform \<Rightarrow> fileHandle \<Rightarrow> ExtendedMetadata \<Rightarrow> ExtendedMetadata promise" where
  "extractPDFMetadata env f metadata =
     tryCatch
       (await (arrayBuffer f) (\<lambda>buffer.
          let text = decodeLatin1 env buffer;
              m1 = pdfInfoFields text metadata;
              m2 = (if countPages 0 text > 0 then m1\<lparr>pageCount := Some (countPages 0 text)\<rparr>
                    else m1);
              textContent = collapseSpaces False (replaceNonPrintable text)
          in fulfilled (m2\<lparr>wordCount := Some (countWords textContent),
                            characterCount := Some (length textContent)\<rparr>)))
       (\<lambda>error. fulfilled metadata)"

section \<open>Text extractor\<close>

text \<open>
  \<open>detectEncoding\<close>: the replacement character, then any code unit from \<open>0x80\<close> up,
  then all code units below \<open>0x80\<close>.
\<close>

definition detectEncoding :: "ustring \<Rightarrow> ustring" where
  "detectEncoding text =
     (if str_includes text [65533] then lit ''Binary/Unknown''
      else if list_ex (\<lambda>c. 128 \<le> c \<and> c \<le> 65535) text then lit ''UTF-8''
      else if list_all (\<lambda>c. c \<le> 127) text then lit ''ASCII''
      else lit ''UTF-8'')"

text \<open>
  The stop-word patterns \<^verbatim>\<open>/\b(w1|w2|...)\b/g\<close>. A word character of \<open>\b\<close> is an
  ASCII letter, a digit or the underscore; the position before the first and after the
  last character counts as a non-word character.
\<close>

definition isWordChar :: "nat \<Rightarrow> bool" where
  "isWordChar c \<longleftrightarrow>
     (48 \<le> c \<and> c \<le> 57) \<or> (65 \<le> c \<and> c \<le> 90) \<or> c = 95 \<or> (97 \<le> c \<and> c \<le> 122)"

definition wordBoundary :: "nat option \<Rightarrow> nat option \<Rightarrow> bool" where
  "wordBoundary before after \<longleftrightarrow>
     (case before of None \<Rightarrow> False | Some c \<Rightarrow> isWordChar c)
       \<noteq> (case after of None \<Rightarrow> False | Some c \<Rightarrow> isWordChar c)"

definition charAt :: "ustring \<Rightarrow> nat \<Rightarrow> nat option" where
  "charAt s i = (if i < length s then Some (s ! i) else None)"

text \<open>
  One alternative matches at the head of \<open>s\<close> when \<open>s\<close> starts with it and a word
  boundary follows it; the alternatives are tried in the order written.
\<close>

definition altMatches :: "nat option \<Rightarrow> ustring \<Rightarrow> ustring \<Rightarrow> bool" where
  "altMatches before s w \<longleftrightarrow>
     startsWith s w
     \<and> wordBoundary (if w = [] then before else Some (last w)) (charAt s (length w))"

definition matchStopWord :: "ustring list \<Rightarrow> nat option \<Rightarrow> ustring \<Rightarrow> ustring option" where
  "matchStopWord alternatives before s =
     (if wordBoundary before (charAt s 0) then find (altMatches before s) alternatives
      else None)"

text \<open>
  \<open>(sample.match(pattern) || []).length\<close>: the matches from left to right, the search
  resuming after each match (\<open>skip\<close> counts the characters of that match still to be
  passed, \<open>before\<close> is the character before the current position).
\<close>

fun countMatches :: "ustring list \<Rightarrow> nat \<Rightarrow> nat option \<Rightarrow> ustring \<Rightarrow> nat" where
  "countMatches alternatives skip before [] = 0"
| "countMatches alternatives skip before (c # cs) =
     (if skip > 0 then countMatches alternatives (skip - 1) (Some c) cs
      else case matchStopWord alternatives before (c # cs) of
             Some w \<Rightarrow> 1 + countMatches alternatives (length w - 1) (Some c) cs
           | None \<Rightarrow> countMatches alternatives 0 (Some c) cs)"

definition patterns :: "(ustring \<times> ustring list) list" where
  "patterns =
     [(lit ''English'',
       map lit [''the'', ''and'', ''or'', ''but'', ''in'', ''on'', ''at'', ''to'', ''for'', ''of'',
                ''with'', ''by'', ''this'', ''that'', ''have'', ''has'', ''will'', ''would'',
                ''could'', ''should'']),
      (lit ''French'',
       map lit [''le'', ''la'', ''les'', ''de'', ''du'', ''des'', ''et'', ''ou'', ''mais'', ''dans'',
                ''sur'', ''pour'', ''avec'', ''ce'', ''cette'', ''avoir'']
       @ [234 # lit ''tre'', lit ''sera'', lit ''serait'']),
      (lit ''German'',
       map lit [''der'', ''die'', ''das'', ''und'', ''oder'', ''aber'', ''in'', ''auf'', ''zu'']
       @ [lit ''f'' @ 252 # lit ''r'']
       @ map lit [''mit'', ''von'', ''haben'', ''sein'', ''wird'']
       @ [lit ''w'' @ 252 # lit ''rde'', lit ''k'' @ 246 # lit ''nnte'', lit ''sollte'']),
      (lit ''Spanish'',
       map lit [''el'', ''la'', ''los'', ''las'', ''de'', ''del'', ''y'', ''o'', ''pero'', ''en'',
                ''sobre'', ''para'', ''con'', ''este'', ''esta'', ''tener'', ''ser'']
       @ [lit ''ser'' @ [225], lit ''ser'' @ 237 # lit ''a'']),
      (lit ''Italian'',
       map lit [''il'', ''la'', ''lo'', ''gli'', ''le'', ''di'', ''del'', ''e'', ''o'', ''ma'', ''in'',
                ''su'', ''per'', ''con'', ''questo'', ''questa'', ''avere'', ''essere'']
       @ [lit ''sar'' @ [224]])]"

text \<open>The body of the loop over the patterns: a strictly larger count replaces the best.\<close>

definition languageStep ::
  "ustring \<Rightarrow> nat \<times> ustring \<Rightarrow> ustring \<times> ustring list \<Rightarrow> nat \<times> ustring" where
  "languageStep sample best entry =
     (case best of (maxMatches, detectedLanguage) \<Rightarrow>
        (case entry of (lang, pattern) \<Rightarrow>
           if countMatches pattern 0 None sample > maxMatches
           then (countMatches pattern 0 None sample, lang)
           else (maxMatches, detectedLanguage)))"

definition detectLanguage :: "platform \<Rightarrow> ustring \<Rightarrow> ustring" where
  "detectLanguage env text =
     (let sample = take 1000 (toLowerCase env text);
          best = foldl (languageStep sample) (0, lit ''Unknown'') patterns
      in if fst best > 3 then snd best else lit ''Unknown'')"

definition extractTextMetadata ::
  "platform \<Rightarrow> fileHandle \<Rightarrow> ExtendedMetadata \<Rightarrow> ExtendedMetadata promise" where
  "extractTextMetadata env f metadata =
     tryCatch
       (await (arrayBuffer f) (\<lambda>buffer.
          let text = decodeUtf8 env buffer
          in fulfilled (metadata\<lparr>wordCount := Some (countWords text),
                                   characterCount := Some (length text),
                                   lineCount := Some (length (splitOn 10 [] text)),
                                   encoding := Some (detectEncoding text),
                                   language := Some (detectLanguage env text)\<rparr>)))
       (\<lambda>error. fulfilled metadata)"

section \<open>Archive extractor\<close>

text \<open>
  \<open>DataView.getUint32(offset, true)\<close> and \<open>getUint16(offset, true)\<close>: little-endian
  reads that throw a \<open>RangeError\<close> when they reach beyond the buffer.
\<close>

definition getUint32 :: "byte list \<Rightarrow> nat \<Rightarrow> error + nat" where
  "getUint32 buf offset =
     (if offset + 4 \<le> length buf
      then Inr (unat (buf ! offset) + 256 * unat (buf ! (offset + 1))
                + 65536 * unat (buf ! (offset + 2)) + 16777216 * unat (buf ! (offset + 3)))
      else Inl RangeError)"

definition getUint16 :: "byte list \<Rightarrow> nat \<Rightarrow> error + nat" where
  "getUint16 buf offset =
     (if offset + 2 \<le> length buf
      then Inr (unat (buf ! offset) + 256 * unat (buf ! (offset + 1)))
      else Inl RangeError)"

definition zipMagic :: nat where
  "zipMagic = 0x04034b50"

text \<open>
  The walk over the local file headers, from \<open>offset\<close> with the sizes accumulated so
  far; it ends at the first position without the magic number or within 30 bytes of the
  end. The accumulated size is a number, each addition rounded (a sum below \<open>2^53\<close> is
  exact); offsets and lengths are integers below \<open>2^53\<close> and exact.
\<close>

function zipWalk :: "byte list \<Rightarrow> nat \<Rightarrow> real \<Rightarrow> error + real" where
  "zipWalk buf offset uncompressedSize =
     (if offset < length buf - 30 then
        (case getUint32 buf offset of
           Inl e \<Rightarrow> Inl e
         | Inr signature \<Rightarrow>
             if signature = zipMagic then
               (case getUint32 buf (offset + 22) of
                  Inl e \<Rightarrow> Inl e
                | Inr uncompSize \<Rightarrow>
                    (case getUint16 buf (offset + 26) of
                       Inl e \<Rightarrow> Inl e
                     | Inr filenameLength \<Rightarrow>
                         (case getUint16 buf (offset + 28) of
                            Inl e \<Rightarrow> Inl e
                          | Inr extraFieldLength \<Rightarrow>
                              (case getUint32 buf (offset + 18) of
                                 Inl e \<Rightarrow> Inl e
                               | Inr compSize \<Rightarrow>
                                   zipWalk buf
                                     (offset + 30 + filenameLength + extraFieldLength + compSize)
                                     (numAdd uncompressedSize (real uncompSize))))))
             else Inr uncompressedSize)
      else Inr uncompressedSize)"
  by pat_completeness auto
termination
  by (relation "measure (\<lambda>(buf, offset, uncompressedSize). length buf - offset)") auto

text \<open>The synchronous part of \<open>extractArchiveMetadata\<close>, once the buffer is read.\<close>

definition archiveRatio :: "byte list \<Rightarrow> error + real option" where
  "archiveRatio buf =
     (case getUint32 buf 0 of
        Inl e \<Rightarrow> Inl e
      | Inr signature \<Rightarrow>
          if signature = zipMagic then
            (case zipWalk buf 0 0 of
               Inl e \<Rightarrow> Inl e
             | Inr uncompressedSize \<Rightarrow>
                 if uncompressedSize > 0
                 then Inr (Some (roundHundredths
                                   (numDiv (real (length buf)) uncompressedSize)))
                 else Inr None)
          else Inr None)"

definition extractArchiveMetadata ::
  "platform \<Rightarrow> fileHandle \<Rightarrow> ExtendedMetadata \<Rightarrow> ExtendedMetadata promise" where
  "extractArchiveMetadata env f metadata =
     tryCatch
       (await (arrayBuffer f) (\<lambda>buffer.
          case archiveRatio buffer of
            Inl e \<Rightarrow> rejected e
          | Inr None \<Rightarrow> fulfilled metadata
          | Inr (Some ratio) \<Rightarrow> fulfilled (metadata\<lparr>compressionRatio := Some ratio\<rparr>)))
       (\<lambda>error. fulfilled metadata)"

section \<open>Orchestration\<close>

datatype extractor =
  ImageExtractor | MediaExtractor | DocumentExtractor | TextExtractor | ArchiveExtractor
  | NoExtractor

text \<open>The conditions of the dispatch in \<open>extractMetadata\<close>, in the order written.\<close>

definition selectExtractor :: "fileHandle \<Rightarrow> extractor" where
  "selectExtractor f =
     (if startsWith (file_type f) (lit ''image/'') then ImageExtractor
      else if startsWith (file_type f) (lit ''video/'') \<or> startsWith (file_type f) (lit ''audio/'')
      then MediaExtractor
      else if file_type f = lit ''application/pdf'' then DocumentExtractor
      else if str_includes (file_type f) (lit ''text/'') \<or> endsWith (file_name f) (lit ''.txt'')
              \<or> endsWith (file_name f) (lit ''.md'')
      then TextExtractor
      else if str_includes (file_type f) (lit ''zip'') \<or> str_includes (file_type f) (lit ''archive'')
              \<or> endsWith (file_name f) (lit ''.zip'') \<or> endsWith (file_name f) (lit ''.rar'')
      then ArchiveExtractor
      else NoExtractor)"

definition runExtractor ::
  "platform \<Rightarrow> fileHandle \<Rightarrow> ExtendedMetadata \<Rightarrow> extractor \<Rightarrow> ExtendedMetadata promise" where
  "runExtractor env f metadata x =
     (case x of
        ImageExtractor \<Rightarrow> extractImageMetadata env f metadata
      | MediaExtractor \<Rightarrow> extractMediaMetadata env f metadata
      | DocumentExtractor \<Rightarrow> extractPDFMetadata env f metadata
      | TextExtractor \<Rightarrow> extractTextMetadata env f metadata
      | ArchiveExtractor \<Rightarrow> extractArchiveMetadata env f metadata
      | NoExtractor \<Rightarrow> fulfilled metadata)"

definition extractMetadata :: "platform \<Rightarrow> fileHandle \<Rightarrow> ExtendedMetadata promise" where
  "extractMetadata env f =
     await (getFileSignature f) (\<lambda>signature.
     await (runExtractor env f ((basicMetadata env f)\<lparr>fileSignature := Some signature\<rparr>)
              (selectExtractor f)) (\<lambda>m.
     await (calculateChecksum f (lit ''SHA-256'')) (\<lambda>sha256sum.
     await (calculateChecksum f (lit ''MD5'')) (\<lambda>md5sum.
     await (calculateEntropy f) (\<lambda>entropyValue.
     await (detectEncryption f) (\<lambda>encrypted.
     await (hasEmbeddedMetadata env f) (\<lambda>embedded.
       fulfilled (m\<lparr>checksum := Some sha256sum,
                    md5_field := Some md5sum,
                    entropy := Some entropyValue,
                    isExecutable := Some (isExecutableFile env (file_name f)),
                    isEncrypted := Some encrypted,
                    hasMetadata := Some embedded,
                    processingTime :=
                      Some (roundHundredths (numSub (endTime env) (startTime env)))\<rparr>))))))))"

section \<open>Reference notions of the specification\<close>

text \<open>The characters a lowercase hexadecimal rendering may contain.\<close>

definition lowerHex :: "nat \<Rightarrow> bool" where
  "lowerHex c \<longleftrightarrow> c \<in> set (lit ''0123456789abcdef'')"

text \<open>
  The classifier as the specification words it: the PDF branch also accepts the
  \<open>.pdf\<close> extension, and the text branch asks for a MIME prefix.
\<close>

definition spec_classify :: "fileHandle \<Rightarrow> extractor" where
  "spec_classify f =
     (if startsWith (file_type f) (lit ''image/'') then ImageExtractor
      else if startsWith (file_type f) (lit ''audio/'') \<or> startsWith (file_type f) (lit ''video/'')
      then MediaExtractor
      else if file_type f = lit ''application/pdf'' \<or> endsWith (file_name f) (lit ''.pdf'')
      then DocumentExtractor
      else if startsWith (file_type f) (lit ''text/'') \<or> endsWith (file_name f) (lit ''.txt'')
              \<or> endsWith (file_name f) (lit ''.md'')
      then TextExtractor
      else if str_includes (file_type f) (lit ''zip'') \<or> str_includes (file_type f) (lit ''archive'')
              \<or> endsWith (file_name f) (lit ''.zip'') \<or> endsWith (file_name f) (lit ''.rar'')
      then ArchiveExtractor
      else NoExtractor)"

text \<open>A file handle with the given name, MIME type, bytes and readability.\<close>

definition mkFile :: "string \<Rightarrow> string \<Rightarrow> byte list \<Rightarrow> bool \<Rightarrow> fileHandle" where
  "mkFile n t bs r =
     \<lparr> file_name = lit n, file_type = lit t, file_lastModified = 0, file_bytes = bs,
       file_readable = r \<rparr>"

text \<open>
  A platform on which nothing decodes as an image or as media, whose EXIF library finds no
  tag, whose text decoders map each byte to the code unit of the same value, and whose
  case mapping is that of ASCII.
\<close>

definition asciiLower :: "ustring \<Rightarrow> ustring" where
  "asciiLower s = map (\<lambda>c. if 65 \<le> c \<and> c \<le> 90 then c + 32 else c) s"

definition testPlatform :: platform where
  "testPlatform =
     \<lparr> imageDimensions = None, exifTags = Some [], pixelSample = LoadFailed, mediaInfo = None,
       startTime = 0, endTime = 0, decodeUtf8 = map unat, decodeLatin1 = map unat,
       toLowerCase = asciiLower \<rparr>"


text \<open>Whether a promise is fulfilled, and the value it is fulfilled with.\<close>

definition isFulfilled :: "'a promise \<Rightarrow> bool" where
  "isFulfilled p = (case p of Some (Inr v) \<Rightarrow> True | _ \<Rightarrow> False)"

definition promiseValue :: "'a promise \<Rightarrow> 'a option" where
  "promiseValue p = (case p of Some (Inr v) \<Rightarrow> Some v | _ \<Rightarrow> None)"

text \<open>
  The four bytes of the ZIP local-file-header magic number, and two archives. The first is
  cut short: one local file header that declares 100 uncompressed and 1000 compressed
  bytes, followed by 10 bytes of data. The second is whole: one local file header that
  declares 40 uncompressed and 11 compressed bytes, followed by its 11 bytes of data.
\<close>

definition zipHeaderBytes :: "byte list" where
  "zipHeaderBytes = [0x50, 0x4B, 0x03, 0x04]"

definition truncatedZip :: "byte list" where
  "truncatedZip =
     zipHeaderBytes @ replicate 14 0 @ [0xE8, 0x03, 0, 0] @ [0x64, 0, 0, 0] @ [0, 0, 0, 0]
     @ replicate 10 0"

definition storedZip :: "byte list" where
  "storedZip =
     zipHeaderBytes @ replicate 14 0 @ [0x0B, 0, 0, 0] @ [0x28, 0, 0, 0] @ [0, 0, 0, 0]
     @ replicate 11 0"

text \<open>
  The match counts of the five languages on a sample, in the order of the patterns; the
  update of the best count by one entry; and the sample of the specification's example:
  1000 characters made of the words \<open>the\<close>, \<open>and\<close> and \<open>of\<close>.
\<close>

definition scoresAt :: "nat option \<Rightarrow> ustring \<Rightarrow> (ustring \<times> nat) list" where
  "scoresAt before sample =
     map (\<lambda>(lang, pattern). (lang, countMatches pattern 0 before sample)) patterns"

definition languageScores :: "platform \<Rightarrow> ustring \<Rightarrow> (ustring \<times> nat) list" where
  "languageScores env text = scoresAt None (take 1000 (toLowerCase env text))"

definition bestStep :: "nat \<times> ustring \<Rightarrow> ustring \<times> nat \<Rightarrow> nat \<times> ustring" where
  "bestStep best entry = (if snd entry > fst best then (snd entry, fst entry) else best)"

definition englishSample :: ustring where
  "englishSample = concat (replicate 90 (lit ''the and of '')) @ lit ''the and of''"

text \<open>
  The invariant of the specification on the fields that one format extractor owns: such a
  field is present only if its extractor is the one the dispatch selects and the step that
  assigns it succeeded (the image decoded, the pixels were sampled, the media element
  loaded, the bytes were read, the archive starts with the magic number). The fields that
  no stage assigns are absent.
\<close>

definition formatFieldsJustified :: "platform \<Rightarrow> fileHandle \<Rightarrow> ExtendedMetadata \<Rightarrow> bool" where
  "formatFieldsJustified env f r \<longleftrightarrow>
     (dimensions r \<noteq> None \<or> aspectRatio r \<noteq> None \<longrightarrow>
        (selectExtractor f = ImageExtractor \<and> imageDimensions env \<noteq> None)
        \<or> (selectExtractor f = MediaExtractor \<and> mediaInfo env \<noteq> None))
     \<and> (exifData r \<noteq> None \<or> dpi r \<noteq> None \<longrightarrow>
          selectExtractor f = ImageExtractor \<and> exifTags env \<noteq> None)
     \<and> (colorDepth r \<noteq> None \<or> hasAlpha r \<noteq> None \<longrightarrow>
          selectExtractor f = ImageExtractor \<and> (\<exists>imageData. pixelSample env = Sampled imageData))
     \<and> (duration r \<noteq> None \<or> bitrate r \<noteq> None \<longrightarrow>
          selectExtractor f = MediaExtractor \<and> mediaInfo env \<noteq> None)
     \<and> (pageCount r \<noteq> None \<longrightarrow> selectExtractor f = DocumentExtractor \<and> file_readable f)
     \<and> (wordCount r \<noteq> None \<or> characterCount r \<noteq> None \<longrightarrow>
          (selectExtractor f = DocumentExtractor \<or> selectExtractor f = TextExtractor)
          \<and> file_readable f)
     \<and> (lineCount r \<noteq> None \<or> encoding r \<noteq> None \<or> language r \<noteq> None \<longrightarrow>
          selectExtractor f = TextExtractor \<and> file_readable f)
     \<and> (compressionRatio r \<noteq> None \<longrightarrow>
          selectExtractor f = ArchiveExtractor \<and> file_readable f
          \<and> take 4 (file_bytes f) = zipHeaderBytes)
     \<and> (creator r \<noteq> None \<or> subject r \<noteq> None \<or> md_keywords r \<noteq> None \<longrightarrow>
          (selectExtractor f = ImageExtractor \<and> exifTags env \<noteq> None)
          \<or> (selectExtractor f = DocumentExtractor \<and> file_readable f))
     \<and> sampleRate r = None \<and> channels r = None \<and> codec r = None \<and> architecture r = None"

text \<open>The fields copied from the file handle, and the signature read first.\<close>

definition identityFields :: "platform \<Rightarrow> fileHandle \<Rightarrow> ExtendedMetadata \<Rightarrow> bool" where
  "identityFields env f r \<longleftrightarrow>
     md_name r = file_name f \<and> md_size r = file_size f \<and> md_type r = file_type f
     \<and> lastModified r = file_lastModified f
     \<and> extension r = getFileExtension env (file_name f)
     \<and> fileSignature r
         = Some (if file_readable f
                 then toUpperCaseAscii (join (lit '' '') (map hexByte (take 16 (file_bytes f))))
                 else [])"

text \<open>
  The fields that the universal analyzers and the clock give to every record: the values
  computed from the bytes when the file is readable, and otherwise the empty string, zero
  and false.
\<close>

definition universalFields :: "platform \<Rightarrow> fileHandle \<Rightarrow> ExtendedMetadata \<Rightarrow> bool" where
  "universalFields env f r \<longleftrightarrow>
     checksum r = Some (if file_readable f then hexString (sha256 (file_bytes f)) else [])
     \<and> md5_field r = Some (if file_readable f then hexString (sha1 (file_bytes f)) else [])
     \<and> entropy r
         = Some (if file_readable f then entropyOf (take (1024 * 1024) (file_bytes f)) else 0)
     \<and> isExecutable r = Some (isExecutableFile env (file_name f))
     \<and> isEncrypted r
         = Some (file_readable f
                 \<and> (list_ex (signatureMatches (take 1024 (file_bytes f))) encryptionSignatures
                    \<or> entropyOf (take (1024 * 1024) (file_bytes f)) > 7.5))
     \<and> hasMetadata r
         = Some (if startsWith (file_type f) (lit ''image/'')
                 then (case exifTags env of None \<Rightarrow> False | Some tags \<Rightarrow> length tags > 0)
                 else file_type f = lit ''application/pdf'' \<and> file_readable f
                      \<and> (str_includes (decodeLatin1 env (take 2048 (file_bytes f))) (lit ''/Info'')
                         \<or> str_includes (decodeLatin1 env (take 2048 (file_bytes f)))
                              (lit ''/Metadata'')))
     \<and> processingTime r = Some (roundHundredths (numSub (endTime env) (startTime env)))"

text \<open>What a format extractor leaves as it found it.\<close>

definition stageKeeps :: "ExtendedMetadata \<Rightarrow> ExtendedMetadata \<Rightarrow> bool" where
  "stageKeeps m m' \<longleftrightarrow>
     md_name m' = md_name m \<and> md_size m' = md_size m \<and> md_type m' = md_type m
     \<and> lastModified m' = lastModified m \<and> extension m' = extension m
     \<and> fileSignature m' = fileSignature m"

section \<open>Properties of the aspect ratio\<close>

lemma gcd_rec_eq_gcd: "gcd_rec a b = Some (gcd a b)"
proof (induction b arbitrary: a rule: less_induct)
  case (less b)
  show ?case
  proof (cases "b = 0")
    case True
    then show ?thesis by (simp add: gcd_rec.simps)
  next
    case False
    then have "a mod b < b" by simp
    then have "gcd_rec b (a mod b) = Some (gcd b (a mod b))" by (rule less.IH)
    with False show ?thesis
      by (subst gcd_rec.simps) (simp add: gcd.commute [of a b] gcd_red_nat [symmetric])
  qed
qed

lemma divide_number_gcd_left:
  "0 < gcd a b \<Longrightarrow> divide_number a (gcd a b) = Whole (a div gcd a b)"
  by (simp add: divide_number_def)

lemma divide_number_gcd_right:
  "0 < gcd a b \<Longrightarrow> divide_number b (gcd a b) = Whole (b div gcd a b)"
  by (simp add: divide_number_def)

lemma calculateAspectRatio_value:
  assumes "0 < width \<or> 0 < height"
  shows "calculateAspectRatio width height =
           Some (toDecimal (width div gcd width height) @ lit '':'' @
                 toDecimal (height div gcd width height))"
proof -
  from assms have pos: "0 < gcd width height" by auto
  show ?thesis
    unfolding calculateAspectRatio_def gcd_rec_eq_gcd
    by (simp add: divide_number_gcd_left [OF pos] divide_number_gcd_right [OF pos])
qed

text \<open>
  C7. For positive pixel dimensions the aspect ratio is the string \<open>W:H\<close> of the width
  and the height, each divided by their greatest common divisor, and the two rendered
  numbers have no common divisor left.
\<close>

theorem aspect_ratio_reduced:
  assumes "0 < width" and "0 < height"
  shows "calculateAspectRatio width height =
           Some (toDecimal (width div gcd width height) @ lit '':'' @
                 toDecimal (height div gcd width height))
         \<and> coprime (width div gcd width height) (height div gcd width height)"
proof
  from assms show "calculateAspectRatio width height =
      Some (toDecimal (width div gcd width height) @ lit '':'' @
            toDecimal (height div gcd width height))"
    by (simp add: calculateAspectRatio_value)
next
  from assms show "coprime (width div gcd width height) (height div gcd width height)"
    by (simp add: div_gcd_coprime)
qed

theorem aspect_ratio_reduced_witness:
  "(0::nat) < 1920 \<and> (0::nat) < 1080
   \<and> calculateAspectRatio 1920 1080 = Some (lit ''16:9'')
   \<and> calculateAspectRatio 1 1 = Some (lit ''1:1'')"
proof -
  have g: "gcd (1920::nat) 1080 = 120" by code_simp
  have d: "toDecimal 16 = lit ''16''" "toDecimal 9 = lit ''9''" "toDecimal 1 = lit ''1''"
    by (simp_all add: lit_def)
  show ?thesis
    using aspect_ratio_reduced [of 1920 1080] aspect_ratio_reduced [of 1 1]
    by (simp add: g d lit_def)
qed

text \<open>
  C10. The recursive gcd returns for every pair of non-negative integers, the second
  argument of the recursive call is strictly smaller than the second argument of the
  call, and when the width or the height is positive the divisor is not zero: both
  divisions of the rendered ratio are exact divisions by a non-zero number.
\<close>

theorem gcd_terminates_divisor_nonzero:
  "(\<exists>d. gcd_rec a b = Some d)
   \<and> (b \<noteq> 0 \<longrightarrow> a mod b < b)
   \<and> (0 < width \<or> 0 < height \<longrightarrow>
        (\<exists>d. gcd_rec width height = Some d \<and> d \<noteq> 0
           \<and> divide_number width d = Whole (width div d)
           \<and> divide_number height d = Whole (height div d)))"
  by (auto simp: gcd_rec_eq_gcd divide_number_def)

theorem gcd_terminates_divisor_nonzero_witness:
  "gcd_rec 1920 1080 = Some 120 \<and> (1920::nat) mod 1080 < 1080
   \<and> gcd_rec 0 7 = Some 7 \<and> divide_number 0 7 = Whole 0 \<and> divide_number 7 7 = Whole 1"
proof -
  have "gcd (1920::nat) 1080 = 120" by code_simp
  then have "gcd_rec 1920 1080 = Some 120" by (simp add: gcd_rec_eq_gcd)
  moreover have "gcd_rec 0 7 = Some 7" by (simp add: gcd_rec_eq_gcd)
  ultimately show ?thesis using gcd_terminates_divisor_nonzero [of 1920 1080 0 7]
    by simp
qed

section \<open>Auxiliary facts\<close>

lemma replicate_numeral: "replicate (numeral n) x = x # replicate (pred_numeral n) x"
  by (simp add: numeral_eq_Suc)

section \<open>Properties of the digests\<close>

subsection \<open>Sizes and alphabet\<close>

lemma list8: "length s = 8 \<Longrightarrow> \<exists>a b c d e f g h. s = [a, b, c, d, e, f, g, h]"
  by (auto simp: numeral_eq_Suc length_Suc_conv)

lemma list5: "length s = 5 \<Longrightarrow> \<exists>a b c d e. s = [a, b, c, d, e]"
  by (auto simp: numeral_eq_Suc length_Suc_conv)

lemma list4: "length s = 4 \<Longrightarrow> \<exists>a b c d. s = [a, b, c, d]"
  by (auto simp: numeral_eq_Suc length_Suc_conv)

lemma length_round256: "length s = 8 \<Longrightarrow> length (round256 s kw) = 8"
  by (cases kw) (auto dest!: list8 simp: shift256_def)

lemma length_round1: "length s = 5 \<Longrightarrow> length (round1 s tw) = 5"
  by (cases tw) (auto dest!: list5)

lemma length_md5_round: "length s = 4 \<Longrightarrow> length (md5_round m s iks) = 4"
  by (cases iks) (auto dest!: list4)

lemma length_foldl_inv:
  "(\<And>s x. length s = n \<Longrightarrow> length (f s x) = n) \<Longrightarrow> length s = n \<Longrightarrow> length (foldl f s xs) = n"
  by (induction xs arbitrary: s) auto

lemma length_compress256: "length h = 8 \<Longrightarrow> length (compress256 h block) = 8"
  by (simp add: compress256_def length_foldl_inv [where n = 8] length_round256)

lemma length_compress1: "length h = 5 \<Longrightarrow> length (compress1 h block) = 5"
  by (simp add: compress1_def length_foldl_inv [where n = 5] length_round1)

lemma length_md5_compress: "length h = 4 \<Longrightarrow> length (md5_compress h block) = 4"
  by (simp add: md5_compress_def length_foldl_inv [where n = 4] length_md5_round)

lemma length_concat_const:
  "(\<And>x. length (f x) = k) \<Longrightarrow> length (concat (map f xs)) = k * length xs"
  by (induction xs) auto

lemma length_sha256: "length (sha256 m) = 32"
proof -
  have "length (foldl compress256 H256 (chunks 16 (words_be (sha_pad m)))) = 8"
    by (rule length_foldl_inv) (simp_all add: length_compress256 H256_def)
  then show ?thesis
    by (simp add: sha256_def length_concat_const [where k = 4] bytes_be_def)
qed

lemma length_sha1: "length (sha1 m) = 20"
proof -
  have "length (foldl compress1 H1 (chunks 16 (words_be (sha_pad m)))) = 5"
    by (rule length_foldl_inv) (simp_all add: length_compress1 H1_def)
  then show ?thesis
    by (simp add: sha1_def length_concat_const [where k = 4] bytes_be_def)
qed

lemma length_md5: "length (md5 m) = 16"
proof -
  have "length (foldl md5_compress md5_H (chunks 16 (words_le (md5_pad m)))) = 4"
    by (rule length_foldl_inv) (simp_all add: length_md5_compress md5_H_def)
  then show ?thesis
    by (simp add: md5_def length_concat_const [where k = 4] bytes_le_def bytes_be_def)
qed

lemma toString16_small: "n < 16 \<Longrightarrow> toString16 n = [hexDigit n]"
  by simp

lemma toString16_byte:
  "n < 256 \<Longrightarrow> 16 \<le> n \<Longrightarrow> toString16 n = [hexDigit (n div 16), hexDigit (n mod 16)]"
  by (subst toString16.simps) (simp add: toString16_small)

lemma hexByte_eq: "hexByte b = [hexDigit (unat b div 16), hexDigit (unat b mod 16)]"
proof -
  have lt: "unat b < 256" using unsigned_less [of b, where ?'a = nat] by simp
  show ?thesis
  proof (cases "unat b < 16")
    case True
    then show ?thesis by (simp add: hexByte_def padStart_def hexDigit_def)
  next
    case False
    with lt show ?thesis by (simp add: hexByte_def padStart_def toString16_byte del: toString16.simps)
  qed
qed

lemma hexDigit_lower: "d < 16 \<Longrightarrow> lowerHex (hexDigit d)"
proof -
  assume "d < 16"
  then have "d = 0 \<or> d = 1 \<or> d = 2 \<or> d = 3 \<or> d = 4 \<or> d = 5 \<or> d = 6 \<or> d = 7 \<or> d = 8
    \<or> d = 9 \<or> d = 10 \<or> d = 11 \<or> d = 12 \<or> d = 13 \<or> d = 14 \<or> d = 15" by arith
  then show ?thesis by (auto simp: hexDigit_def lowerHex_def lit_def)
qed

lemma hexByte_lower: "list_all lowerHex (hexByte b)"
proof -
  have "unat b < 256" using unsigned_less [of b, where ?'a = nat] by simp
  then have "unat b div 16 < 16" by simp
  then show ?thesis by (simp add: hexByte_eq hexDigit_lower)
qed

lemma join_nil: "join [] xs = concat xs"
  by (induction "[]::nat list" xs rule: join.induct) auto

lemma hexString_lower: "list_all lowerHex (concat (map hexByte bs))"
  by (induction bs) (auto simp: hexByte_lower)

lemma length_hex: "length (concat (map hexByte bs)) = 2 * length bs"
  by (simp add: length_concat_const [where k = 2] hexByte_eq)

lemma calculateChecksum_sha256:
  "file_readable f \<Longrightarrow>
   calculateChecksum f (lit ''SHA-256'') = fulfilled (hexString (sha256 (file_bytes f)))"
  by (simp add: calculateChecksum_def arrayBuffer_def await_def tryCatch_def fulfilled_def
      subtle_digest_def lit_def join_nil hexString_def)

lemma calculateChecksum_md5:
  "file_readable f \<Longrightarrow>
   calculateChecksum f (lit ''MD5'') = fulfilled (hexString (sha1 (file_bytes f)))"
  by (simp add: calculateChecksum_def arrayBuffer_def await_def tryCatch_def fulfilled_def
      subtle_digest_def lit_def join_nil hexString_def)

lemma calculateChecksum_unreadable:
  "\<not> file_readable f \<Longrightarrow> calculateChecksum f algorithm = fulfilled []"
  by (simp add: calculateChecksum_def arrayBuffer_def await_def tryCatch_def fulfilled_def
      rejected_def)

section \<open>Properties of the classification\<close>

text \<open>
  C4, as stated, fails: a file named \<open>a.pdf\<close> with an empty MIME type is a document for
  the specification's classifier and has no extractor in the code.
\<close>

theorem classification_counterexample:
  "selectExtractor (mkFile ''a.pdf'' [] [] True) = NoExtractor
   \<and> spec_classify (mkFile ''a.pdf'' [] [] True) = DocumentExtractor"
  by (simp add: selectExtractor_def spec_classify_def mkFile_def startsWith_def endsWith_def
      lit_def)

text \<open>
  C4, amended. The extractor is a function of the MIME type and the name alone, decided in
  this order: the image prefix; the video or audio prefix; the MIME type
  \<open>application/pdf\<close> itself (the name is not consulted); a MIME type that contains
  \<open>text/\<close> or a name ending in \<open>.txt\<close> or \<open>.md\<close>; a MIME type that contains \<open>zip\<close> or
  \<open>archive\<close> or a name ending in \<open>.zip\<close> or \<open>.rar\<close>; otherwise no extractor, and the
  record passes the dispatch unchanged.
\<close>

theorem classification_order:
  "(selectExtractor f = ImageExtractor \<longleftrightarrow> startsWith (file_type f) (lit ''image/''))
   \<and> (selectExtractor f = MediaExtractor \<longleftrightarrow>
        \<not> startsWith (file_type f) (lit ''image/'')
        \<and> (startsWith (file_type f) (lit ''video/'') \<or> startsWith (file_type f) (lit ''audio/'')))
   \<and> (selectExtractor f = DocumentExtractor \<longleftrightarrow> file_type f = lit ''application/pdf'')
   \<and> (selectExtractor f = TextExtractor \<longleftrightarrow>
        \<not> startsWith (file_type f) (lit ''image/'')
        \<and> \<not> startsWith (file_type f) (lit ''video/'') \<and> \<not> startsWith (file_type f) (lit ''audio/'')
        \<and> file_type f \<noteq> lit ''application/pdf''
        \<and> (str_includes (file_type f) (lit ''text/'') \<or> endsWith (file_name f) (lit ''.txt'')
             \<or> endsWith (file_name f) (lit ''.md'')))
   \<and> (selectExtractor f = ArchiveExtractor \<longleftrightarrow>
        \<not> startsWith (file_type f) (lit ''image/'')
        \<and> \<not> startsWith (file_type f) (lit ''video/'') \<and> \<not> startsWith (file_type f) (lit ''audio/'')
        \<and> file_type f \<noteq> lit ''application/pdf''
        \<and> \<not> (str_includes (file_type f) (lit ''text/'') \<or> endsWith (file_name f) (lit ''.txt'')
               \<or> endsWith (file_name f) (lit ''.md''))
        \<and> (str_includes (file_type f) (lit ''zip'') \<or> str_includes (file_type f) (lit ''archive'')
             \<or> endsWith (file_name f) (lit ''.zip'') \<or> endsWith (file_name f) (lit ''.rar'')))
   \<and> runExtractor env f m NoExtractor = fulfilled m
   \<and> (file_name f = file_name g \<and> file_type f = file_type g
        \<longrightarrow> selectExtractor f = selectExtractor g)"
  by (auto simp: selectExtractor_def runExtractor_def startsWith_def lit_def)

theorem classification_order_witness:
  "selectExtractor (mkFile ''notes.md'' [] [] True) = TextExtractor
   \<and> selectExtractor (mkFile ''photo.txt'' ''image/png'' [] True) = ImageExtractor
   \<and> selectExtractor (mkFile ''a.zip'' ''application/pdf'' [] True) = DocumentExtractor
   \<and> selectExtractor (mkFile ''a.rar'' [] [] True) = ArchiveExtractor
   \<and> selectExtractor (mkFile ''a.rar'' [] [] True) = selectExtractor (mkFile ''a.rar'' [] [1] False)"
proof -
  let ?m = "basicMetadata testPlatform (mkFile [] [] [] True)"
  have "selectExtractor (mkFile ''notes.md'' [] [] True) = TextExtractor"
    using classification_order [where f = "mkFile ''notes.md'' [] [] True"
        and g = "mkFile ''notes.md'' [] [] True" and env = testPlatform and m = ?m]
    by (simp add: mkFile_def startsWith_def endsWith_def lit_def)
  moreover have "selectExtractor (mkFile ''photo.txt'' ''image/png'' [] True) = ImageExtractor"
    using classification_order [where f = "mkFile ''photo.txt'' ''image/png'' [] True"
        and g = "mkFile ''notes.md'' [] [] True" and env = testPlatform and m = ?m]
    by (simp add: mkFile_def startsWith_def endsWith_def lit_def)
  moreover have "selectExtractor (mkFile ''a.zip'' ''application/pdf'' [] True) = DocumentExtractor"
    using classification_order [where f = "mkFile ''a.zip'' ''application/pdf'' [] True"
        and g = "mkFile ''notes.md'' [] [] True" and env = testPlatform and m = ?m]
    by (simp add: mkFile_def startsWith_def endsWith_def lit_def)
  moreover have "selectExtractor (mkFile ''a.rar'' [] [] True) = ArchiveExtractor
      \<and> selectExtractor (mkFile ''a.rar'' [] [] True)
          = selectExtractor (mkFile ''a.rar'' [] [1] False)"
    using classification_order [where f = "mkFile ''a.rar'' [] [] True"
        and g = "mkFile ''a.rar'' [] [1] False" and env = testPlatform and m = ?m]
    by (auto simp: mkFile_def startsWith_def endsWith_def lit_def)
  ultimately show ?thesis by metis
qed

section \<open>Properties of the entropy\<close>



lemma unat_byte_less: "unat (b :: byte) < 256"
  using unsigned_less [of b, where ?'a = nat] by simp










lemma calculateEntropy_readable:
  "file_readable f \<Longrightarrow>
   calculateEntropy f = fulfilled (entropyOf (take (1024 * 1024) (file_bytes f)))"
  by (simp add: calculateEntropy_def sliceBuffer_def await_def tryCatch_def fulfilled_def
      file_size_def min_def)

lemma calculateEntropy_unreadable:
  "\<not> file_readable f \<Longrightarrow> calculateEntropy f = fulfilled 0"
  by (simp add: calculateEntropy_def sliceBuffer_def await_def tryCatch_def fulfilled_def
      rejected_def)



section \<open>Properties of the numbers\<close>

text \<open>
  The rounding to a double, once the binary exponent of the argument is known.
\<close>

lemma ulpExponent_eval:
  assumes "2 powi e \<le> \<bar>x\<bar>" and "\<bar>x\<bar> < 2 powi (e + 1)" and "- 1022 \<le> e"
  shows "ulpExponent x = e - 52"
proof -
  have pos: "0 < \<bar>x\<bar>"
    using assms(1) zero_less_power_int [of "2::real" e] by linarith
  have a: "2 powr (of_int e) = (2::real) powi e"
    "2 powr (of_int (e + 1)) = (2::real) powi (e + 1)"
    by (rule powr_real_of_int'; simp)+
  have "\<lfloor>log 2 \<bar>x\<bar>\<rfloor> = e"
    using assms pos a floor_log_eq_powr_iff [of "\<bar>x\<bar>" 2 e] by simp
  with assms(3) show ?thesis by (simp add: ulpExponent_def)
qed

lemma toDouble_eval:
  assumes "2 powi e \<le> \<bar>x\<bar>" and "\<bar>x\<bar> < 2 powi (e + 1)" and "- 1022 \<le> e"
  shows "toDouble x = of_int (roundHalfEven (x / 2 powi (e - 52))) * 2 powi (e - 52)"
proof -
  have "0 < \<bar>x\<bar>"
    using assms(1) zero_less_power_int [of "2::real" e] by linarith
  then have "x \<noteq> 0"
    by simp
  then show ?thesis by (simp add: toDouble_def ulpExponent_eval [OF assms])
qed

text \<open>
  The rounding to a double moves a number by at most half the spacing of the doubles
  around it.
\<close>

lemma roundHalfEven_error: "\<bar>of_int (roundHalfEven y) - y\<bar> \<le> 1 / 2"
proof -
  have "of_int \<lfloor>y\<rfloor> \<le> y" "y < of_int \<lfloor>y\<rfloor> + 1"
    by linarith+
  then show ?thesis
    by (auto simp: roundHalfEven_def abs_le_iff)
qed

lemma ulp_bound:
  assumes "x \<noteq> 0"
  shows "2 powi ulpExponent x \<le> \<bar>x\<bar> / 2 ^ 52 + 1 / 2 ^ 1074"
proof (cases "- 1022 \<le> \<lfloor>log 2 \<bar>x\<bar>\<rfloor>")
  case True
  let ?e = "\<lfloor>log 2 \<bar>x\<bar>\<rfloor>"
  have pos: "0 < \<bar>x\<bar>" using assms by simp
  have "2 powr (of_int ?e) \<le> 2 powr (log 2 \<bar>x\<bar>)"
    by (rule powr_mono) simp_all
  also have "\<dots> = \<bar>x\<bar>"
    using pos by simp
  finally have le: "2 powi ?e \<le> \<bar>x\<bar>"
    by (simp add: powr_real_of_int')
  have "ulpExponent x = ?e - 52"
    using True by (simp add: ulpExponent_def)
  then have "(2::real) powi ulpExponent x = 2 powi ?e / 2 ^ 52"
    by (simp add: power_int_diff)
  also have "\<dots> \<le> \<bar>x\<bar> / 2 ^ 52"
    using le by (simp add: divide_right_mono)
  finally have "2 powi ulpExponent x \<le> \<bar>x\<bar> / 2 ^ 52" .
  moreover have "(0::real) \<le> 1 / 2 ^ 1074"
    by simp
  ultimately show ?thesis
    by linarith
next
  case False
  then have "ulpExponent x = - 1074"
    by (simp add: ulpExponent_def)
  then have "(2::real) powi ulpExponent x = 1 / 2 ^ 1074"
    by (simp add: power_int_minus field_simps)
  then show ?thesis
    by simp
qed

lemma toDouble_error: "\<bar>toDouble x - x\<bar> \<le> \<bar>x\<bar> / 2 ^ 53 + 1 / 2 ^ 1075"
proof (cases "x = 0")
  case True
  then show ?thesis by (simp add: toDouble_def)
next
  case False
  let ?u = "(2::real) powi ulpExponent x"
  have u: "0 < ?u" by (simp add: zero_less_power_int)
  have "toDouble x - x = (of_int (roundHalfEven (x / ?u)) - x / ?u) * ?u"
    using False u by (simp add: toDouble_def algebra_simps)
  then have "\<bar>toDouble x - x\<bar> = \<bar>of_int (roundHalfEven (x / ?u)) - x / ?u\<bar> * ?u"
    using u by (simp add: abs_mult)
  also have "\<dots> \<le> 1 / 2 * ?u"
    using roundHalfEven_error [of "x / ?u"] u by (simp add: mult_right_mono)
  also have "\<dots> \<le> 1 / 2 * (\<bar>x\<bar> / 2 ^ 52 + 1 / 2 ^ 1074)"
    using ulp_bound [OF False] by simp
  also have "\<dots> = \<bar>x\<bar> / 2 ^ 53 + 1 / 2 ^ 1075"
    by simp
  finally show ?thesis .
qed

lemma mathRound_error: "\<bar>of_int (mathRound y) - y\<bar> \<le> 1 / 2"
proof -
  have "of_int \<lfloor>y + 1 / 2\<rfloor> \<le> y + 1 / 2" "y + 1 / 2 < of_int \<lfloor>y + 1 / 2\<rfloor> + 1"
    by linarith+
  then show ?thesis
    unfolding mathRound_def by linarith
qed

text \<open>
  \<open>Math.round((a / b) * 100) / 100\<close> is the quotient rounded to two decimals: it is a
  double next to a multiple of \<open>1/100\<close>, and lies within \<open>1/200\<close> of the quotient up to the
  rounding of the three operations.
\<close>

lemma roundHundredths_error:
  "\<bar>roundHundredths (numDiv a b) - a / b\<bar> \<le> 1 / 200 + (4 * \<bar>a / b\<bar> + 1) / 2 ^ 53"
proof -
  define q where "q = a / b"
  define q1 where "q1 = toDouble q"
  define p where "p = toDouble (q1 * 100)"
  define n where "n = (of_int (mathRound p) :: real)"
  define r where "r = toDouble (n / 100)"
  define delta where "delta = (1::real) / 2 ^ 1075"
  define A where "A = \<bar>q\<bar>"
  define B where "B = \<bar>q1\<bar>"
  define N where "N = \<bar>n\<bar>"
  define t1 where "t1 = \<bar>r - n / 100\<bar>"
  define t2 where "t2 = \<bar>n - p\<bar>"
  define t3 where "t3 = \<bar>p - q1 * 100\<bar>"
  define t4 where "t4 = \<bar>q1 - q\<bar>"
  have r: "roundHundredths (numDiv a b) = r"
    by (simp add: roundHundredths_def numDiv_def numMul_def r_def n_def p_def q1_def q_def)
  have e4: "t4 \<le> A / 9007199254740992 + delta"
    using toDouble_error [of q] by (simp add: q1_def delta_def t4_def A_def)
  have e3: "t3 \<le> B * 100 / 9007199254740992 + delta"
    using toDouble_error [of "q1 * 100"] by (simp add: p_def delta_def abs_mult t3_def B_def)
  have e2: "t2 \<le> 1 / 2"
    using mathRound_error [of p] by (simp add: n_def t2_def)
  have e1: "t1 \<le> N / 100 / 9007199254740992 + delta"
    using toDouble_error [of "n / 100"] by (simp add: r_def delta_def t1_def N_def)
  have d: "0 \<le> delta" "delta \<le> 1 / 9007199254740992 / 1000"
    by (simp_all add: delta_def)
  have b1: "B \<le> A + t4"
    unfolding A_def B_def t4_def by linarith
  have b2: "N \<le> B * 100 + t3 + t2"
    unfolding N_def B_def t3_def t2_def by linarith
  have h2: "\<bar>n / 100 - p / 100\<bar> = t2 / 100"
    unfolding t2_def diff_divide_distrib [symmetric] by simp
  have h3: "\<bar>p / 100 - q1\<bar> = t3 / 100"
  proof -
    have "p / 100 - q1 = (p - q1 * 100) / 100" by simp
    then have "\<bar>p / 100 - q1\<bar> = \<bar>(p - q1 * 100) / 100\<bar>" by (rule arg_cong)
    also have "\<dots> = \<bar>p - q1 * 100\<bar> / 100" by (simp only: abs_divide abs_numeral)
    finally show ?thesis unfolding t3_def .
  qed
  have s1: "\<bar>r - q\<bar> \<le> t1 + \<bar>n / 100 - q\<bar>"
    unfolding t1_def by linarith
  have s2: "\<bar>n / 100 - q\<bar> \<le> \<bar>n / 100 - p / 100\<bar> + \<bar>p / 100 - q\<bar>"
    by linarith
  have s3: "\<bar>p / 100 - q\<bar> \<le> \<bar>p / 100 - q1\<bar> + t4"
    unfolding t4_def by linarith
  have tri: "\<bar>r - q\<bar> \<le> t1 + t2 / 100 + t3 / 100 + t4"
    using s1 s2 s3 h2 h3 by linarith
  have nonneg: "0 \<le> A"
    by (simp add: A_def)
  have "t1 + t2 / 100 + t3 / 100 + t4 \<le> 1 / 200 + (4 * A + 1) / 9007199254740992"
    using e1 e2 e3 e4 b1 b2 d nonneg by argo
  then have "\<bar>r - q\<bar> \<le> 1 / 200 + (4 * A + 1) / 9007199254740992"
    using tri by linarith
  then show ?thesis
    by (simp add: r q_def A_def)
qed

lemma toDouble_40: "toDouble 40 = 40"
  by (simp add: toDouble_eval [where e = 5] roundHalfEven_def)

lemma toDouble_100: "toDouble 100 = 100"
  by (simp add: toDouble_eval [where e = 6] roundHalfEven_def)

text \<open>
  \<open>Math.round((40 / 100) * 100) / 100\<close> is the double next to \<open>0.4\<close>.
\<close>

lemma ratio_two_fifths: "roundHundredths (numDiv 40 100) = toDouble (2 / 5)"
proof -
  have a: "toDouble (40 / 100) = 3602879701896397 / 9007199254740992"
    by (simp add: toDouble_eval [where e = "- 2"] roundHalfEven_def)
  have b: "toDouble (3602879701896397 / 9007199254740992 * 100) = 40"
    by (simp add: toDouble_eval [where e = 5] roundHalfEven_def)
  have c: "\<lfloor>(40::real) + 1 / 2\<rfloor> = 40"
    by simp
  show ?thesis
    unfolding roundHundredths_def numDiv_def numMul_def mathRound_def a b c by simp
qed

text \<open>
  \<open>Math.round((41 / 40) * 100) / 100\<close> is the double next to \<open>1.02\<close>: the quotient is the
  double just below \<open>1.025\<close>, and its product with 100 the double just below \<open>102.5\<close>.
\<close>

lemma ratio_below_tie: "roundHundredths (numDiv 41 40) = toDouble (51 / 50)"
proof -
  have a: "toDouble (41 / 40) = 2308094809027379 / 2251799813685248"
    by (simp add: toDouble_eval [where e = 0] roundHalfEven_def)
  have b: "toDouble (2308094809027379 / 2251799813685248 * 100)
      = 7212796278210559 / 70368744177664"
    by (simp add: toDouble_eval [where e = 6] roundHalfEven_def)
  have c: "\<lfloor>(7212796278210559::real) / 70368744177664 + 1 / 2\<rfloor> = 102"
    by simp
  show ?thesis
    unfolding roundHundredths_def numDiv_def numMul_def mathRound_def a b c by simp
qed

section \<open>Properties of the archive extractor\<close>


lemma getUint32_ok: "offset + 4 \<le> length buf \<Longrightarrow> \<exists>v. getUint32 buf offset = Inr v"
  by (simp add: getUint32_def)

lemma getUint16_ok: "offset + 2 \<le> length buf \<Longrightarrow> \<exists>v. getUint16 buf offset = Inr v"
  by (simp add: getUint16_def)

lemma zipWalk_returns: "\<exists>usize. zipWalk buf offset uncompressedSize = Inr usize"
proof (induction buf offset uncompressedSize rule: zipWalk.induct)
  case (1 buf offset uncompressedSize)
  show ?case
  proof (cases "offset < length buf - 30")
    case False
    then show ?thesis by (subst zipWalk.simps) simp
  next
    case True
    then have "offset + 4 \<le> length buf" "offset + 22 + 4 \<le> length buf"
      "offset + 26 + 2 \<le> length buf" "offset + 28 + 2 \<le> length buf"
      "offset + 18 + 4 \<le> length buf"
      by simp_all
    then obtain sg uc fl el cs where r:
      "getUint32 buf offset = Inr sg" "getUint32 buf (offset + 22) = Inr uc"
      "getUint16 buf (offset + 26) = Inr fl" "getUint16 buf (offset + 28) = Inr el"
      "getUint32 buf (offset + 18) = Inr cs"
      by (auto simp: getUint32_def getUint16_def)
    show ?thesis
    proof (cases "sg = zipMagic")
      case False
      with True r show ?thesis by (subst zipWalk.simps) simp
    next
      case sig: True
      have "\<exists>usize. zipWalk buf (offset + 30 + fl + el + cs) (numAdd uncompressedSize (real uc))
        = Inr usize"
        using "1.IH" [OF True r(1) sig r(2) r(3) r(4) r(5)] .
      with True r sig show ?thesis by (subst zipWalk.simps) simp
    qed
  qed
qed


lemma base256_step:
  assumes "x < 256" and "x' < 256" and "x + 256 * y = x' + 256 * (y'::nat)"
  shows "x = x' \<and> y = y'"
proof -
  have "x = (x + 256 * y) mod 256" using assms(1) by simp
  also have "\<dots> = (x' + 256 * y') mod 256" using assms(3) by simp
  also have "\<dots> = x'" using assms(2) by simp
  finally have "x = x'" .
  with assms(3) show ?thesis by simp
qed

lemma le32_inject:
  assumes "a < 256" "b < 256" "c < 256" "a' < 256" "b' < 256" "c' < 256"
    and "a + 256 * b + 65536 * c + 16777216 * d = a' + 256 * b' + 65536 * c' + 16777216 * (d'::nat)"
  shows "a = a' \<and> b = b' \<and> c = c' \<and> d = d'"
proof -
  from assms(7) have "a + 256 * (b + 256 * (c + 256 * d)) = a' + 256 * (b' + 256 * (c' + 256 * d'))"
    by simp
  from base256_step [OF assms(1) assms(4) this]
  have 1: "a = a'" and r1: "b + 256 * (c + 256 * d) = b' + 256 * (c' + 256 * d')" by simp_all
  from base256_step [OF assms(2) assms(5) r1]
  have 2: "b = b'" and r2: "c + 256 * d = c' + 256 * d'" by simp_all
  from base256_step [OF assms(3) assms(6) r2] 1 2 show ?thesis by simp
qed

lemma magic_iff:
  "getUint32 buf 0 = Inr zipMagic \<longleftrightarrow> take 4 buf = zipHeaderBytes"
proof (cases "4 \<le> length buf")
  case False
  then show ?thesis by (auto simp: getUint32_def zipHeaderBytes_def)
next
  case True
  then obtain a b c d rest where buf: "buf = a # b # c # d # rest"
    by (cases buf; cases "tl buf"; cases "tl (tl buf)"; cases "tl (tl (tl buf))") auto
  have bounds: "unat a < 256" "unat b < 256" "unat c < 256" "unat d < 256"
    using unat_byte_less by simp_all
  have "(unat a + 256 * unat b + 65536 * unat c + 16777216 * unat d = zipMagic)
      = (unat a = 80 \<and> unat b = 75 \<and> unat c = 3 \<and> unat d = 4)"
    using le32_inject [OF bounds(1) bounds(2) bounds(3), of 80 75 3 "unat d" 4]
    by (auto simp: zipMagic_def)
  also have "\<dots> = (a = 0x50 \<and> b = 0x4B \<and> c = 0x03 \<and> d = 0x04)"
    by (auto simp: word_unat_eq_iff)
  finally show ?thesis
    by (simp add: buf getUint32_def zipHeaderBytes_def)
qed


lemma isFulfilled_fulfilled: "isFulfilled (fulfilled v)"
  by (simp add: isFulfilled_def fulfilled_def)

lemma archiveRatio_short: "length buf < 4 \<Longrightarrow> archiveRatio buf = Inl RangeError"
  by (simp add: archiveRatio_def getUint32_def)

lemma take4_short: "length buf < 4 \<Longrightarrow> take 4 buf \<noteq> zipHeaderBytes"
  by (auto simp: zipHeaderBytes_def dest: arg_cong [where f = length])

lemma archiveRatio_other:
  "4 \<le> length buf \<Longrightarrow> take 4 buf \<noteq> zipHeaderBytes \<Longrightarrow> archiveRatio buf = Inr None"
  using magic_iff [of buf] by (auto simp: archiveRatio_def getUint32_def)

lemma archiveRatio_zip:
  assumes "take 4 buf = zipHeaderBytes" and "zipWalk buf 0 0 = Inr usize"
  shows "archiveRatio buf
         = Inr (if usize > 0 then Some (roundHundredths (numDiv (real (length buf)) usize))
                else None)"
  using assms magic_iff [of buf] by (simp add: archiveRatio_def)

lemma extractArchive_unreadable:
  "\<not> file_readable f \<Longrightarrow> extractArchiveMetadata env f m = fulfilled m"
  by (simp add: extractArchiveMetadata_def arrayBuffer_def await_def tryCatch_def rejected_def
      fulfilled_def)

lemma extractArchive_no_magic:
  assumes "file_readable f" and "take 4 (file_bytes f) \<noteq> zipHeaderBytes"
  shows "extractArchiveMetadata env f m = fulfilled m"
proof (cases "length (file_bytes f) < 4")
  case True
  with assms(1) show ?thesis
    by (simp add: extractArchiveMetadata_def arrayBuffer_def await_def tryCatch_def rejected_def
        fulfilled_def archiveRatio_short)
next
  case False
  with assms show ?thesis
    by (simp add: extractArchiveMetadata_def arrayBuffer_def await_def tryCatch_def rejected_def
        fulfilled_def archiveRatio_other)
qed

lemma extractArchive_zip:
  assumes "file_readable f" and "take 4 (file_bytes f) = zipHeaderBytes"
    and "zipWalk (file_bytes f) 0 0 = Inr usize"
  shows "extractArchiveMetadata env f m
         = fulfilled (if usize > 0
                      then m\<lparr>compressionRatio :=
                             Some (roundHundredths (numDiv (real (file_size f)) usize))\<rparr>
                      else m)"
  using assms
  by (simp add: extractArchiveMetadata_def arrayBuffer_def await_def tryCatch_def rejected_def
      fulfilled_def archiveRatio_zip file_size_def)

lemma truncatedZip_literal:
  "truncatedZip =
     [0x50, 0x4B, 0x03, 0x04, 0, 0, 0, 0, 0, 0, 0, 0, 0, 0, 0, 0, 0, 0, 0xE8, 0x03, 0, 0,
      0x64, 0, 0, 0, 0, 0, 0, 0, 0, 0, 0, 0, 0, 0, 0, 0, 0, 0]"
  by (simp add: truncatedZip_def zipHeaderBytes_def replicate_numeral)

lemma zipWalk_truncated: "zipWalk truncatedZip 0 0 = Inr 100"
  by (simp add: truncatedZip_literal getUint32_def getUint16_def zipMagic_def numAdd_def
      toDouble_100)

lemma storedZip_literal:
  "storedZip =
     [0x50, 0x4B, 0x03, 0x04, 0, 0, 0, 0, 0, 0, 0, 0, 0, 0, 0, 0, 0, 0, 0x0B, 0, 0, 0,
      0x28, 0, 0, 0, 0, 0, 0, 0, 0, 0, 0, 0, 0, 0, 0, 0, 0, 0, 0]"
  by (simp add: storedZip_def zipHeaderBytes_def replicate_numeral)

lemma zipWalk_stored: "zipWalk storedZip 0 0 = Inr 40"
  by (simp add: storedZip_literal getUint32_def getUint16_def zipMagic_def numAdd_def
      toDouble_40)

text \<open>
  C8, amended. The archive extractor never fails. When the file cannot be read or its
  first four bytes are not the magic number it leaves the record as it is. When they are,
  the header walk returns the accumulated uncompressed size, and the compression ratio
  is set if and only if that size is positive; it is then
  \<open>Math.round((fileSize / size) * 100) / 100\<close> in double arithmetic, the quotient rounded
  to two decimals: within \<open>1/200\<close> of it, up to the rounding of the doubles. A malformed
  or truncated archive has a ratio whenever the headers walked declare a positive size.
\<close>

theorem archive_ratio:
  "isFulfilled (extractArchiveMetadata env f m)
   \<and> (\<not> file_readable f \<or> take 4 (file_bytes f) \<noteq> zipHeaderBytes
        \<longrightarrow> extractArchiveMetadata env f m = fulfilled m)
   \<and> (file_readable f \<and> take 4 (file_bytes f) = zipHeaderBytes
        \<longrightarrow> (\<exists>usize. zipWalk (file_bytes f) 0 0 = Inr usize
              \<and> extractArchiveMetadata env f m
                  = fulfilled (if usize > 0
                      then m\<lparr>compressionRatio :=
                             Some (roundHundredths (numDiv (real (file_size f)) usize))\<rparr>
                      else m)
              \<and> \<bar>roundHundredths (numDiv (real (file_size f)) usize)
                   - real (file_size f) / usize\<bar>
                  \<le> 1 / 200 + (4 * \<bar>real (file_size f) / usize\<bar> + 1) / 2 ^ 53))"
proof -
  have a: "\<not> file_readable f \<or> take 4 (file_bytes f) \<noteq> zipHeaderBytes
      \<longrightarrow> extractArchiveMetadata env f m = fulfilled m"
    using extractArchive_unreadable extractArchive_no_magic by blast
  have b: "file_readable f \<and> take 4 (file_bytes f) = zipHeaderBytes
      \<longrightarrow> (\<exists>usize. zipWalk (file_bytes f) 0 0 = Inr usize
            \<and> extractArchiveMetadata env f m
                = fulfilled (if usize > 0
                    then m\<lparr>compressionRatio :=
                           Some (roundHundredths (numDiv (real (file_size f)) usize))\<rparr>
                    else m)
            \<and> \<bar>roundHundredths (numDiv (real (file_size f)) usize)
                 - real (file_size f) / usize\<bar>
                \<le> 1 / 200 + (4 * \<bar>real (file_size f) / usize\<bar> + 1) / 2 ^ 53)"
    using zipWalk_returns [of "file_bytes f" 0 0] extractArchive_zip roundHundredths_error
    by blast
  have "isFulfilled (extractArchiveMetadata env f m)"
    using a b isFulfilled_fulfilled by metis
  with a b show ?thesis by blast
qed

text \<open>
  C8, as stated, fails in its last part: the truncated archive has a compression ratio,
  the double next to \<open>0.4\<close>.
\<close>

theorem truncated_archive_counterexample:
  "length truncatedZip = 40
   \<and> getUint32 truncatedZip 18 = Inr 1000
   \<and> map_option compressionRatio
        (promiseValue (extractArchiveMetadata testPlatform
           (mkFile ''a.zip'' ''application/zip'' truncatedZip True)
           (basicMetadata testPlatform (mkFile ''a.zip'' ''application/zip'' truncatedZip True))))
      = Some (Some (toDouble (2 / 5)))"
proof -
  let ?f = "mkFile ''a.zip'' ''application/zip'' truncatedZip True"
  have r: "file_readable ?f" "file_bytes ?f = truncatedZip" "file_size ?f = 40"
    by (simp_all add: mkFile_def file_size_def truncatedZip_literal)
  have h: "take 4 (file_bytes ?f) = zipHeaderBytes"
    by (simp add: mkFile_def truncatedZip_def zipHeaderBytes_def)
  have w: "zipWalk (file_bytes ?f) 0 0 = Inr 100"
    by (simp only: r zipWalk_truncated)
  have "extractArchiveMetadata testPlatform ?f (basicMetadata testPlatform ?f)
      = fulfilled ((basicMetadata testPlatform ?f)\<lparr>compressionRatio := Some (toDouble (2 / 5))\<rparr>)"
    using extractArchive_zip [OF r(1) h w] by (simp add: r ratio_two_fifths)
  moreover have "length truncatedZip = 40" "getUint32 truncatedZip 18 = Inr 1000"
    by (simp_all add: truncatedZip_literal getUint32_def)
  ultimately show ?thesis
    by (simp add: promiseValue_def fulfilled_def)
qed

theorem archive_ratio_witness:
  "extractArchiveMetadata testPlatform (mkFile ''a.zip'' [] [1, 2, 3, 4, 5] True)
      (basicMetadata testPlatform (mkFile ''a.zip'' [] [1, 2, 3, 4, 5] True))
     = fulfilled (basicMetadata testPlatform (mkFile ''a.zip'' [] [1, 2, 3, 4, 5] True))
   \<and> extractArchiveMetadata testPlatform (mkFile ''a.zip'' [] storedZip True)
      (basicMetadata testPlatform (mkFile ''a.zip'' [] storedZip True))
     = fulfilled ((basicMetadata testPlatform (mkFile ''a.zip'' [] storedZip True))
         \<lparr>compressionRatio := Some (toDouble (51 / 50))\<rparr>)
   \<and> toDouble (51 / 50) = 2296835809958953 / 2251799813685248"
proof -
  let ?f = "mkFile ''a.zip'' [] [1, 2, 3, 4, 5] True"
  let ?g = "mkFile ''a.zip'' [] storedZip True"
  have "extractArchiveMetadata testPlatform ?f (basicMetadata testPlatform ?f)
      = fulfilled (basicMetadata testPlatform ?f)"
    using archive_ratio [where f = ?f and env = testPlatform
        and m = "basicMetadata testPlatform ?f"]
    by (auto simp: mkFile_def zipHeaderBytes_def)
  moreover have "extractArchiveMetadata testPlatform ?g (basicMetadata testPlatform ?g)
      = fulfilled ((basicMetadata testPlatform ?g)\<lparr>compressionRatio := Some (toDouble (51 / 50))\<rparr>)"
  proof -
    have g: "file_readable ?g" "file_bytes ?g = storedZip" "file_size ?g = 41"
      "take 4 (file_bytes ?g) = zipHeaderBytes"
      by (simp_all add: mkFile_def file_size_def storedZip_def zipHeaderBytes_def)
    from archive_ratio [where f = ?g and env = testPlatform
        and m = "basicMetadata testPlatform ?g"] g
    obtain usize where z: "zipWalk storedZip 0 0 = Inr usize"
      and e: "extractArchiveMetadata testPlatform ?g (basicMetadata testPlatform ?g)
          = fulfilled (if usize > 0
              then (basicMetadata testPlatform ?g)
                     \<lparr>compressionRatio :=
                        Some (roundHundredths (numDiv (real (file_size ?g)) usize))\<rparr>
              else basicMetadata testPlatform ?g)"
      by auto
    from z have "usize = 40" using zipWalk_stored by (metis sum.inject(2))
    with e g(3) show ?thesis by (simp add: ratio_below_tie)
  qed
  moreover have "toDouble (51 / 50) = 2296835809958953 / 2251799813685248"
    by (simp add: toDouble_eval [where e = 0] roundHalfEven_def)
  ultimately show ?thesis by blast
qed

section \<open>Properties of the language detection\<close>

lemma bestStep_pair:
  "bestStep (m, l) e = (if snd e > m then (snd e, fst e) else (m, l))"
  by (simp add: bestStep_def)

lemma le_Max_snd: "e \<in> set xs \<Longrightarrow> snd e \<le> Max (snd ` set xs)"
  by simp

lemma find_last_only:
  "\<forall>e\<in>set xs. \<not> P e \<Longrightarrow> P x \<Longrightarrow> find P (xs @ [x]) = Some x"
  by (induction xs) auto

lemma find_append_found:
  "find P xs \<noteq> None \<Longrightarrow> find P (xs @ ys) = find P xs"
  by (induction xs) auto

lemma Max_snoc_new:
  assumes "\<forall>e\<in>set xs. snd e < (snd x :: nat)"
  shows "Max (snd ` set (xs @ [x])) = snd x"
  using assms by (intro Max_eqI) (auto simp: less_imp_le)

lemma Max_snoc_old:
  assumes "xs \<noteq> []" and "snd x \<le> Max (snd ` set xs)"
  shows "Max (snd ` set (xs @ [x])) = (Max (snd ` set xs) :: nat)"
proof -
  have "Max (insert (snd x) (snd ` set xs)) = max (snd x) (Max (snd ` set xs))"
    using assms(1) by (intro Max_insert) auto
  with assms(2) show ?thesis by (simp add: max_def)
qed

lemma foldl_bestStep:
  "foldl bestStep (m0, l0) xs =
     (if \<forall>e\<in>set xs. snd e \<le> m0 then (m0, l0)
      else (Max (snd ` set xs), fst (the (find (\<lambda>e. snd e = Max (snd ` set xs)) xs))))"
proof (induction xs rule: rev_induct)
  case Nil
  then show ?case by simp
next
  case (snoc x xs)
  let ?M = "Max (snd ` set xs)"
  let ?R = "\<lambda>ys. (if \<forall>e\<in>set ys. snd e \<le> m0 then (m0, l0)
      else (Max (snd ` set ys), fst (the (find (\<lambda>e. snd e = Max (snd ` set ys)) ys))))"
  have step: "foldl bestStep (m0, l0) (xs @ [x]) = bestStep (foldl bestStep (m0, l0) xs) x"
    by simp
  show ?case
  proof (cases "\<forall>e\<in>set xs. snd e \<le> m0")
    case True
    have f: "foldl bestStep (m0, l0) xs = (m0, l0)"
      unfolding snoc.IH by (rule if_P [OF True])
    show ?thesis
    proof (cases "snd x \<le> m0")
      case le: True
      with True have all: "\<forall>e\<in>set (xs @ [x]). snd e \<le> m0" by simp
      have lhs: "foldl bestStep (m0, l0) (xs @ [x]) = (m0, l0)"
        unfolding step f using le by (simp add: bestStep_pair)
      have rhs: "?R (xs @ [x]) = (m0, l0)"
        by (rule if_P [OF all])
      show ?thesis by (simp only: lhs rhs)
    next
      case gt: False
      with True have lt: "\<forall>e\<in>set xs. snd e < snd x" by auto
      have mx: "Max (snd ` set (xs @ [x])) = snd x"
        by (rule Max_snoc_new [OF lt])
      have fd: "find (\<lambda>e. snd e = snd x) (xs @ [x]) = Some x"
        using lt by (intro find_last_only) auto
      have nall: "\<not> (\<forall>e\<in>set (xs @ [x]). snd e \<le> m0)" using gt by simp
      have lhs: "foldl bestStep (m0, l0) (xs @ [x]) = (snd x, fst x)"
        unfolding step f using gt by (simp add: bestStep_pair)
      have rhs: "?R (xs @ [x]) = (snd x, fst x)"
        by (simp only: if_not_P [OF nall] mx fd option.sel)
      show ?thesis by (simp only: lhs rhs)
    qed
  next
    case False
    then have ne: "xs \<noteq> []" by auto
    have f: "foldl bestStep (m0, l0) xs = (?M, fst (the (find (\<lambda>e. snd e = ?M) xs)))"
      unfolding snoc.IH by (rule if_not_P [OF False])
    have "?M \<in> snd ` set xs" using ne by (intro Max_in) auto
    then obtain e where e: "e \<in> set xs" "snd e = ?M" by auto
    then have fnd: "find (\<lambda>e. snd e = ?M) xs \<noteq> None"
      using find_None_iff [of "\<lambda>e. snd e = ?M" xs] by blast
    from False have nall: "\<not> (\<forall>e\<in>set (xs @ [x]). snd e \<le> m0)" by auto
    show ?thesis
    proof (cases "snd x > ?M")
      case True
      have lt: "\<forall>e\<in>set xs. snd e < snd x"
        using True le_Max_snd [of _ xs] by (meson le_less_trans)
      have mx: "Max (snd ` set (xs @ [x])) = snd x"
        by (rule Max_snoc_new [OF lt])
      have fd: "find (\<lambda>e. snd e = snd x) (xs @ [x]) = Some x"
        using lt by (intro find_last_only) auto
      have lhs: "foldl bestStep (m0, l0) (xs @ [x]) = (snd x, fst x)"
        unfolding step f using True by (simp add: bestStep_pair)
      have rhs: "?R (xs @ [x]) = (snd x, fst x)"
        by (simp only: if_not_P [OF nall] mx fd option.sel)
      show ?thesis by (simp only: lhs rhs)
    next
      case le: False
      then have mx: "Max (snd ` set (xs @ [x])) = ?M"
        using Max_snoc_old [OF ne] by simp
      have fd: "find (\<lambda>e. snd e = ?M) (xs @ [x]) = find (\<lambda>e. snd e = ?M) xs"
        by (rule find_append_found [OF fnd])
      have lhs: "foldl bestStep (m0, l0) (xs @ [x]) = (?M, fst (the (find (\<lambda>e. snd e = ?M) xs)))"
        unfolding step f using le by (simp add: bestStep_pair)
      have rhs: "?R (xs @ [x]) = (?M, fst (the (find (\<lambda>e. snd e = ?M) xs)))"
        by (simp only: if_not_P [OF nall] mx fd)
      show ?thesis by (simp only: lhs rhs)
    qed
  qed
qed


lemma languageStep_bestStep:
  "languageStep sample best (lang, pattern) = bestStep best (lang, countMatches pattern 0 None sample)"
  by (cases best) (simp add: languageStep_def bestStep_def)

lemma foldl_languageStep:
  "foldl (languageStep sample) best ps
     = foldl bestStep best (map (\<lambda>(lang, pattern). (lang, countMatches pattern 0 None sample)) ps)"
  by (induction ps arbitrary: best) (auto simp: languageStep_bestStep)

lemma detectLanguage_scores:
  "detectLanguage env text =
     (if fst (foldl bestStep (0, lit ''Unknown'') (languageScores env text)) > 3
      then snd (foldl bestStep (0, lit ''Unknown'') (languageScores env text))
      else lit ''Unknown'')"
  by (simp add: detectLanguage_def Let_def foldl_languageStep languageScores_def scoresAt_def)

lemma languageScores_nonempty: "languageScores env text \<noteq> []"
  by (simp add: languageScores_def scoresAt_def patterns_def)

lemma detectLanguage_best:
  assumes "Max (snd ` set (languageScores env text)) > 3"
  shows "\<exists>l. find (\<lambda>e. snd e = Max (snd ` set (languageScores env text))) (languageScores env text)
              = Some (l, Max (snd ` set (languageScores env text)))
            \<and> detectLanguage env text = l"
proof -
  let ?sc = "languageScores env text"
  let ?M = "Max (snd ` set ?sc)"
  have "?M \<in> snd ` set ?sc"
    using languageScores_nonempty [of env "text"] by (intro Max_in) auto
  then obtain e where e: "e \<in> set ?sc" "snd e = ?M" by auto
  with assms have "e \<in> set ?sc" "\<not> snd e \<le> 0" by simp_all
  then have nall: "\<not> (\<forall>e\<in>set ?sc. snd e \<le> 0)" by blast
  have f: "foldl bestStep (0, lit ''Unknown'') ?sc
      = (?M, fst (the (find (\<lambda>e. snd e = ?M) ?sc)))"
    unfolding foldl_bestStep by (rule if_not_P [OF nall])
  from e have "find (\<lambda>e. snd e = ?M) ?sc \<noteq> None"
    using find_None_iff [of "\<lambda>e. snd e = ?M" ?sc] by blast
  then obtain e' where fe: "find (\<lambda>e. snd e = ?M) ?sc = Some e'" by auto
  then have "snd e' = ?M" by (auto simp: find_Some_iff)
  then have "e' = (fst e', ?M)" by (cases e') simp
  with fe have "find (\<lambda>e. snd e = ?M) ?sc = Some (fst e', ?M)" by simp
  moreover have "detectLanguage env text = fst e'"
    unfolding detectLanguage_scores f using assms fe by simp
  ultimately show ?thesis by blast
qed

lemma detectLanguage_unknown:
  assumes "Max (snd ` set (languageScores env text)) \<le> 3"
  shows "detectLanguage env text = lit ''Unknown''"
proof -
  let ?sc = "languageScores env text"
  have "fst (foldl bestStep (0, lit ''Unknown'') ?sc) \<le> 3"
    unfolding foldl_bestStep using assms by simp
  then show ?thesis unfolding detectLanguage_scores by simp
qed

lemma matchStopWord_whole_word:
  assumes "matchStopWord alternatives before s = Some w"
  shows "w \<in> set alternatives \<and> startsWith s w \<and> wordBoundary before (charAt s 0)
         \<and> wordBoundary (if w = [] then before else Some (last w)) (charAt s (length w))"
proof -
  from assms have b: "wordBoundary before (charAt s 0)"
    and f: "find (altMatches before s) alternatives = Some w"
    by (auto simp: matchStopWord_def split: if_splits)
  from f have "w \<in> set alternatives" "altMatches before s w"
    by (auto simp: find_Some_iff)
  with b show ?thesis by (simp add: altMatches_def)
qed

lemmas match_ev = matchStopWord_def altMatches_def startsWith_def charAt_def wordBoundary_def
  isWordChar_def lit_def

lemma scoresAt_period_start:
  "scoresAt None (lit ''the and of '' @ rest)
     = map2 (\<lambda>n (l, c). (l, n + c)) [3, 0, 0, 0, 0] (scoresAt (Some 32) rest)"
  by (simp add: scoresAt_def patterns_def match_ev)

lemma scoresAt_period:
  "scoresAt (Some 32) (lit ''the and of '' @ rest)
     = map2 (\<lambda>n (l, c). (l, n + c)) [3, 0, 0, 0, 0] (scoresAt (Some 32) rest)"
  by (simp add: scoresAt_def patterns_def match_ev)

lemma scoresAt_tail:
  "scoresAt (Some 32) (lit ''the and of'')
     = [(lit ''English'', 3), (lit ''French'', 0), (lit ''German'', 0), (lit ''Spanish'', 0),
        (lit ''Italian'', 0)]"
  by (simp add: scoresAt_def patterns_def match_ev)


lemma scoresAt_periods:
  "scoresAt (Some 32) (concat (replicate n (lit ''the and of '')) @ rest)
     = map2 (\<lambda>k (l, c). (l, k + c)) [3 * n, 0, 0, 0, 0] (scoresAt (Some 32) rest)"
proof (induction n)
  case 0
  show ?case by (simp add: scoresAt_def patterns_def)
next
  case (Suc n)
  have "scoresAt (Some 32) (concat (replicate (Suc n) (lit ''the and of '')) @ rest)
      = scoresAt (Some 32)
          (lit ''the and of '' @ (concat (replicate n (lit ''the and of '')) @ rest))"
    by simp
  also have "\<dots> = map2 (\<lambda>k (l, c). (l, k + c)) [3, 0, 0, 0, 0]
      (map2 (\<lambda>k (l, c). (l, k + c)) [3 * n, 0, 0, 0, 0] (scoresAt (Some 32) rest))"
    by (simp only: scoresAt_period Suc.IH)
  also have "\<dots> = map2 (\<lambda>k (l, c). (l, k + c)) [3 * Suc n, 0, 0, 0, 0] (scoresAt (Some 32) rest)"
    by (simp add: scoresAt_def patterns_def)
  finally show ?case .
qed

lemma scoresAt_englishSample:
  "scoresAt None englishSample
     = [(lit ''English'', 273), (lit ''French'', 0), (lit ''German'', 0), (lit ''Spanish'', 0),
        (lit ''Italian'', 0)]"
proof -
  have e: "englishSample
      = lit ''the and of '' @ (concat (replicate 89 (lit ''the and of '')) @ lit ''the and of'')"
    by (simp add: englishSample_def replicate_numeral)
  have "scoresAt None englishSample
      = map2 (\<lambda>k (l, c). (l, k + c)) [3, 0, 0, 0, 0]
          (map2 (\<lambda>k (l, c). (l, k + c)) [3 * 89, 0, 0, 0, 0]
             (scoresAt (Some 32) (lit ''the and of'')))"
    by (simp only: e scoresAt_period_start scoresAt_periods)
  then show ?thesis by (simp add: scoresAt_tail)
qed

lemma length_englishSample: "length englishSample = 1000"
  by (simp add: englishSample_def length_concat sum_list_replicate lit_def)

lemma fst_languageScores:
  "map fst (languageScores env text)
     = map lit [''English'', ''French'', ''German'', ''Spanish'', ''Italian'']"
  by (simp add: languageScores_def scoresAt_def patterns_def)

lemma detect_englishSample:
  assumes "toLowerCase env englishSample = englishSample"
  shows "detectLanguage env englishSample = lit ''English''"
proof -
  have "languageScores env englishSample = scoresAt None englishSample"
    by (simp add: languageScores_def assms length_englishSample)
  then show ?thesis
    by (simp add: detectLanguage_scores scoresAt_englishSample bestStep_pair)
qed

text \<open>
  C9. Each language is scored by the number of matches of its stop-word pattern in the
  first 1000 characters of the lowercased text, a match being one of the stop words
  between two word boundaries. The language with the highest score is returned if and only
  if that score exceeds 3, and among several languages with the highest score the first in
  the order English, French, German, Spanish, Italian; otherwise the answer is
  \<open>Unknown\<close>. The 1000-character sample of \<open>the\<close>, \<open>and\<close> and \<open>of\<close> is English.
\<close>

theorem language_detection:
  "(3 < Max (snd ` set (languageScores env text))
      \<longrightarrow> (\<exists>l. find (\<lambda>e. snd e = Max (snd ` set (languageScores env text)))
                   (languageScores env text)
                 = Some (l, Max (snd ` set (languageScores env text)))
               \<and> detectLanguage env text = l))
   \<and> (Max (snd ` set (languageScores env text)) \<le> 3
      \<longrightarrow> detectLanguage env text = lit ''Unknown'')
   \<and> map fst (languageScores env text)
       = map lit [''English'', ''French'', ''German'', ''Spanish'', ''Italian'']
   \<and> (matchStopWord alternatives before s = Some w
      \<longrightarrow> w \<in> set alternatives \<and> startsWith s w \<and> wordBoundary before (charAt s 0)
          \<and> wordBoundary (if w = [] then before else Some (last w)) (charAt s (length w)))
   \<and> length englishSample = 1000
   \<and> (toLowerCase env englishSample = englishSample
      \<longrightarrow> detectLanguage env englishSample = lit ''English'')"
  using detectLanguage_best [of env "text"] detectLanguage_unknown [of env "text"]
    fst_languageScores [of env "text"] matchStopWord_whole_word [of alternatives before s w]
    length_englishSample detect_englishSample [of env]
  by blast

lemma asciiLower_englishSample: "asciiLower englishSample = englishSample"
  by (simp add: englishSample_def asciiLower_def map_concat lit_def)

lemma scores_no_stop_words:
  "languageScores testPlatform (lit ''xyz 123'')
     = [(lit ''English'', 0), (lit ''French'', 0), (lit ''German'', 0), (lit ''Spanish'', 0),
        (lit ''Italian'', 0)]"
  by (simp add: languageScores_def testPlatform_def asciiLower_def scoresAt_def patterns_def
      match_ev)

lemma scores_tie:
  "languageScores testPlatform (lit ''La la LA la'')
     = [(lit ''English'', 0), (lit ''French'', 4), (lit ''German'', 0), (lit ''Spanish'', 4),
        (lit ''Italian'', 4)]"
  by (simp add: languageScores_def testPlatform_def asciiLower_def scoresAt_def patterns_def
      match_ev)

theorem language_detection_witness:
  "detectLanguage testPlatform englishSample = lit ''English''
   \<and> detectLanguage testPlatform (lit ''xyz 123'') = lit ''Unknown''
   \<and> detectLanguage testPlatform (lit ''La la LA la'') = lit ''French''"
proof -
  have "detectLanguage testPlatform englishSample = lit ''English''"
    using language_detection [where env = testPlatform and ?text = englishSample
        and alternatives = "[]" and before = None and s = "[]" and w = "[]"]
    by (simp add: testPlatform_def asciiLower_englishSample)
  moreover have "detectLanguage testPlatform (lit ''xyz 123'') = lit ''Unknown''"
    using language_detection [where env = testPlatform and ?text = "lit ''xyz 123''"
        and alternatives = "[]" and before = None and s = "[]" and w = "[]"]
    by (simp add: scores_no_stop_words)
  moreover have "detectLanguage testPlatform (lit ''La la LA la'') = lit ''French''"
    using language_detection [where env = testPlatform and ?text = "lit ''La la LA la''"
        and alternatives = "[]" and before = None and s = "[]" and w = "[]"]
    by (simp add: scores_tie)
  ultimately show ?thesis by blast
qed
section \<open>Properties of the orchestration\<close>

lemma await_fulfilled: "await (fulfilled v) k = k v"
  by (simp add: await_def fulfilled_def)

lemma await_rejected: "await (rejected e) k = rejected e"
  by (simp add: await_def rejected_def)

lemma tryCatch_fulfilled: "tryCatch (fulfilled v) h = fulfilled v"
  by (simp add: tryCatch_def fulfilled_def)

lemma tryCatch_rejected: "tryCatch (rejected e) h = h e"
  by (simp add: tryCatch_def rejected_def)

lemma await_pending: "await None k = None"
  by (simp add: await_def)

lemma tryCatch_pending: "tryCatch None h = None"
  by (simp add: tryCatch_def)

lemmas promise_simps = await_fulfilled await_rejected tryCatch_fulfilled tryCatch_rejected
  await_pending tryCatch_pending

lemma fulfilled_inject: "(fulfilled a = fulfilled b) = (a = b)"
  by (simp add: fulfilled_def)

lemma calculateAspectRatio_total: "\<exists>r. calculateAspectRatio width height = Some r"
proof (cases "0 < width \<or> 0 < height")
  case True
  then show ?thesis by (simp add: calculateAspectRatio_value)
next
  case False
  then show ?thesis
    by (simp add: calculateAspectRatio_def gcd_rec_eq_gcd divide_number_def)
qed

lemma getFileSignature_eq:
  "getFileSignature f
     = fulfilled (if file_readable f
                  then toUpperCaseAscii (join (lit '' '') (map hexByte (take 16 (file_bytes f))))
                  else [])"
  by (simp add: getFileSignature_def sliceBuffer_def promise_simps)

lemma calculateChecksum_eq_sha256:
  "calculateChecksum f (lit ''SHA-256'')
     = fulfilled (if file_readable f then hexString (sha256 (file_bytes f)) else [])"
  by (simp add: calculateChecksum_sha256 calculateChecksum_unreadable)

lemma calculateChecksum_eq_md5:
  "calculateChecksum f (lit ''MD5'')
     = fulfilled (if file_readable f then hexString (sha1 (file_bytes f)) else [])"
  by (simp add: calculateChecksum_md5 calculateChecksum_unreadable)

lemma calculateEntropy_eq:
  "calculateEntropy f
     = fulfilled (if file_readable f then entropyOf (take (1024 * 1024) (file_bytes f)) else 0)"
  by (simp add: calculateEntropy_readable calculateEntropy_unreadable)

lemma detectEncryption_eq:
  "detectEncryption f
     = fulfilled (file_readable f
         \<and> (list_ex (signatureMatches (take 1024 (file_bytes f))) encryptionSignatures
            \<or> entropyOf (take (1024 * 1024) (file_bytes f)) > 7.5))"
  by (simp add: detectEncryption_def sliceBuffer_def promise_simps calculateEntropy_eq)

lemma getExifData_answer: "exifTags env = Some tags \<Longrightarrow> getExifData env f = fulfilled tags"
  by (simp add: getExifData_def)

lemma getExifData_pending: "exifTags env = None \<Longrightarrow> getExifData env f = None"
  by (simp add: getExifData_def)

lemma hasEmbeddedMetadata_image:
  assumes "startsWith (file_type f) (lit ''image/'')"
  shows "hasEmbeddedMetadata env f
     = (case exifTags env of None \<Rightarrow> None | Some tags \<Rightarrow> fulfilled (length tags > 0))"
  using assms
  by (cases "exifTags env")
    (simp_all add: hasEmbeddedMetadata_def getExifData_def promise_simps)

lemma hasEmbeddedMetadata_other:
  assumes "\<not> startsWith (file_type f) (lit ''image/'')"
  shows "hasEmbeddedMetadata env f
     = fulfilled (file_type f = lit ''application/pdf'' \<and> file_readable f
                  \<and> (str_includes (decodeLatin1 env (take 2048 (file_bytes f))) (lit ''/Info'')
                     \<or> str_includes (decodeLatin1 env (take 2048 (file_bytes f)))
                          (lit ''/Metadata'')))"
  using assms by (simp add: hasEmbeddedMetadata_def sliceBuffer_def promise_simps)


lemma imageDimensionsBlock_eq:
  "imageDimensionsBlock env m
     = fulfilled (case imageDimensions env of
                    None \<Rightarrow> m
                  | Some (width, height) \<Rightarrow>
                      m\<lparr>dimensions := Some (width, height),
                        aspectRatio := calculateAspectRatio width height\<rparr>)"
proof (cases "imageDimensions env")
  case None
  then show ?thesis by (simp add: imageDimensionsBlock_def promise_simps)
next
  case (Some d)
  obtain width height where d: "d = (width, height)" by (cases d)
  obtain r where r: "calculateAspectRatio width height = Some r"
    using calculateAspectRatio_total by blast
  show ?thesis by (simp add: imageDimensionsBlock_def Some d r promise_simps)
qed

lemma pixelBlock_eq:
  "pixelBlock env m
     = fulfilled (case pixelSample env of
                    Sampled imageData \<Rightarrow>
                      m\<lparr>hasAlpha := Some (hasAlphaChannel imageData),
                        colorDepth := Some (estimateColorDepth imageData)\<rparr>
                  | _ \<Rightarrow> m)"
  by (cases "pixelSample env") (simp_all add: pixelBlock_def promise_simps)

lemma exifBlock_pending: "exifTags env = None \<Longrightarrow> exifBlock env f m = None"
  by (simp add: exifBlock_def getExifData_def promise_simps)

lemma exifBlock_eq:
  assumes "exifTags env = Some tags"
  shows "exifBlock env f m
     = fulfilled (m\<lparr>exifData := Some tags,
         dpi := (if tagTruthy tags ''XResolution'' \<and> tagTruthy tags ''YResolution''
                 then Some (the (tag tags ''XResolution''), the (tag tags ''YResolution''))
                 else dpi m),
         creator := (if tagTruthy tags ''Artist'' then tag tags ''Artist'' else creator m),
         subject := (if tagTruthy tags ''ImageDescription''
                     then tag tags ''ImageDescription'' else subject m),
         md_keywords := (if tagTruthy tags ''Software''
                         then Some [the (tag tags ''Software'')] else md_keywords m)\<rparr>)"
  apply (simp only: exifBlock_def getExifData_answer [OF assms] promise_simps Let_def)
  apply (cases "tagTruthy tags ''XResolution'' \<and> tagTruthy tags ''YResolution''";
         cases "tagTruthy tags ''Artist''";
         cases "tagTruthy tags ''ImageDescription''";
         cases "tagTruthy tags ''Software''")
  apply (simp_all only: if_True if_False)
  apply (simp_all add: fulfilled_inject)
  done

lemma extractImageMetadata_pending:
  "exifTags env = None \<Longrightarrow> extractImageMetadata env f m = None"
  by (simp add: extractImageMetadata_def imageDimensionsBlock_eq exifBlock_pending promise_simps)

lemma extractImageMetadata_eq:
  assumes "exifTags env = Some tags"
  shows "extractImageMetadata env f m
     = pixelBlock env
         ((case imageDimensions env of
             None \<Rightarrow> m
           | Some (width, height) \<Rightarrow>
               m\<lparr>dimensions := Some (width, height),
                 aspectRatio := calculateAspectRatio width height\<rparr>)
          \<lparr>exifData := Some tags,
            dpi := (if tagTruthy tags ''XResolution'' \<and> tagTruthy tags ''YResolution''
                    then Some (the (tag tags ''XResolution''), the (tag tags ''YResolution''))
                    else dpi m),
            creator := (if tagTruthy tags ''Artist'' then tag tags ''Artist'' else creator m),
            subject := (if tagTruthy tags ''ImageDescription''
                        then tag tags ''ImageDescription'' else subject m),
            md_keywords := (if tagTruthy tags ''Software''
                            then Some [the (tag tags ''Software'')]
                            else md_keywords m)\<rparr>)"
proof -
  let ?m1 = "case imageDimensions env of
             None \<Rightarrow> m
           | Some (width, height) \<Rightarrow>
               m\<lparr>dimensions := Some (width, height),
                 aspectRatio := calculateAspectRatio width height\<rparr>"
  have k: "dpi ?m1 = dpi m" "creator ?m1 = creator m" "subject ?m1 = subject m"
    "md_keywords ?m1 = md_keywords m"
    by (simp_all split: option.splits prod.splits)
  show ?thesis
    by (simp only: extractImageMetadata_def imageDimensionsBlock_eq exifBlock_eq [OF assms]
        promise_simps k)
qed

lemma pdfInfoFields_eq:
  "pdfInfoFields t m
     = m\<lparr>subject := (case matchInfo t of None \<Rightarrow> subject m
                     | Some info \<Rightarrow> (case matchEntry ''/Title'' info of
                                       None \<Rightarrow> subject m | Some v \<Rightarrow> Some (Str v))),
         creator := (case matchInfo t of None \<Rightarrow> creator m
                     | Some info \<Rightarrow> (case matchEntry ''/Author'' info of
                                       None \<Rightarrow> creator m | Some v \<Rightarrow> Some (Str v))),
         md_keywords := (case matchInfo t of None \<Rightarrow> md_keywords m
                     | Some info \<Rightarrow> (case matchEntry ''/Keywords'' info of
                                       None \<Rightarrow> md_keywords m
                                     | Some v \<Rightarrow> Some (map (\<lambda>k. Str (trim k)) (splitOn 44 [] v))))\<rparr>"
proof (cases "matchInfo t")
  case None
  then show ?thesis by (simp add: pdfInfoFields_def)
next
  case (Some info)
  show ?thesis
    by (cases "matchEntry ''/Title'' info"; cases "matchEntry ''/Author'' info";
        cases "matchEntry ''/Keywords'' info")
      (simp_all add: pdfInfoFields_def Some Let_def)
qed

lemma extractPDFMetadata_eq:
  "extractPDFMetadata env f m
     = fulfilled (if file_readable f
         then (pdfInfoFields (decodeLatin1 env (file_bytes f)) m)
                \<lparr>pageCount := (if countPages 0 (decodeLatin1 env (file_bytes f)) > 0
                                then Some (countPages 0 (decodeLatin1 env (file_bytes f)))
                                else pageCount m),
                  wordCount := Some (countWords (collapseSpaces False
                                 (replaceNonPrintable (decodeLatin1 env (file_bytes f))))),
                  characterCount := Some (length (collapseSpaces False
                                 (replaceNonPrintable (decodeLatin1 env (file_bytes f)))))\<rparr>
         else m)"
proof (cases "file_readable f")
  case False
  then show ?thesis by (simp add: extractPDFMetadata_def arrayBuffer_def promise_simps)
next
  case True
  show ?thesis
    by (cases "countPages 0 (decodeLatin1 env (file_bytes f)) > 0")
      (simp_all add: extractPDFMetadata_def arrayBuffer_def promise_simps True Let_def
        pdfInfoFields_eq)
qed

lemma extractTextMetadata_eq:
  "extractTextMetadata env f m
     = fulfilled (if file_readable f
         then m\<lparr>wordCount := Some (countWords (decodeUtf8 env (file_bytes f))),
                characterCount := Some (length (decodeUtf8 env (file_bytes f))),
                lineCount := Some (length (splitOn 10 [] (decodeUtf8 env (file_bytes f)))),
                encoding := Some (detectEncoding (decodeUtf8 env (file_bytes f))),
                language := Some (detectLanguage env (decodeUtf8 env (file_bytes f)))\<rparr>
         else m)"
  by (simp add: extractTextMetadata_def arrayBuffer_def promise_simps Let_def)

lemma extractArchiveMetadata_eq:
  "\<exists>r. extractArchiveMetadata env f m = fulfilled (m\<lparr>compressionRatio := r\<rparr>)
       \<and> (\<not> (file_readable f \<and> take 4 (file_bytes f) = zipHeaderBytes)
            \<longrightarrow> r = compressionRatio m)"
proof (cases "file_readable f \<and> take 4 (file_bytes f) = zipHeaderBytes")
  case False
  then have "extractArchiveMetadata env f m = fulfilled (m\<lparr>compressionRatio := compressionRatio m\<rparr>)"
    using extractArchive_unreadable [of f env m] extractArchive_no_magic [of f env m] by auto
  then show ?thesis by blast
next
  case True
  obtain usize where "zipWalk (file_bytes f) 0 0 = Inr usize"
    using zipWalk_returns by blast
  with True have "extractArchiveMetadata env f m
      = fulfilled (m\<lparr>compressionRatio :=
          (if usize > 0 then Some (roundHundredths (numDiv (real (file_size f)) usize))
           else compressionRatio m)\<rparr>)"
    using extractArchive_zip [of f usize env m] by simp
  with True show ?thesis by blast
qed

lemma extractMediaMetadata_eq:
  "extractMediaMetadata env f m
     = fulfilled (case mediaInfo env of
         None \<Rightarrow> m
       | Some e \<Rightarrow>
           m\<lparr>duration := Some (media_duration e),
             dimensions := (if startsWith (file_type f) (lit ''video/'') \<and> media_videoWidth e > 0
                            then Some (media_videoWidth e, media_videoHeight e)
                            else dimensions m),
             aspectRatio := (if startsWith (file_type f) (lit ''video/'') \<and> media_videoWidth e > 0
                             then calculateAspectRatio (media_videoWidth e) (media_videoHeight e)
                             else aspectRatio m),
             bitrate := (if media_duration e > 0
                         then Some (mathRound (numDiv (real (file_size f * 8)) (media_duration e)))
                         else bitrate m)\<rparr>)"
proof (cases "mediaInfo env")
  case None
  then show ?thesis by (simp add: extractMediaMetadata_def promise_simps)
next
  case (Some e)
  obtain r where r: "calculateAspectRatio (media_videoWidth e) (media_videoHeight e) = Some r"
    using calculateAspectRatio_total by blast
  show ?thesis
  proof (cases "startsWith (file_type f) (lit ''video/'') \<and> media_videoWidth e > 0")
    case True
    then have c: "startsWith (file_type f) (lit ''video/'')" "media_videoWidth e > 0"
      by simp_all
    show ?thesis
      by (cases "media_duration e > 0")
        (simp_all add: extractMediaMetadata_def Some r promise_simps Let_def c)
  next
    case False
    then have c: "(startsWith (file_type f) (lit ''video/'') \<and> media_videoWidth e > 0) = False"
      by simp
    show ?thesis
      by (cases "media_duration e > 0")
        (simp_all only: extractMediaMetadata_def Some promise_simps Let_def c option.case
          if_False if_True simp_thms,
         simp_all add: fulfilled_inject promise_simps)
  qed
qed



lemma select_image:
  "(selectExtractor f = ImageExtractor) = startsWith (file_type f) (lit ''image/'')"
  by (simp add: selectExtractor_def)

lemma basic_fields:
  "formatFieldsJustified env f ((basicMetadata env f)\<lparr>fileSignature := Some sg\<rparr>)"
  by (simp add: formatFieldsJustified_def basicMetadata_def)

lemma runExtractor_image:
  assumes "selectExtractor f = ImageExtractor" and "exifTags env = Some tags"
  shows "\<exists>m. runExtractor env f ((basicMetadata env f)\<lparr>fileSignature := Some sg\<rparr>) ImageExtractor
               = fulfilled m
             \<and> formatFieldsJustified env f m
             \<and> stageKeeps ((basicMetadata env f)\<lparr>fileSignature := Some sg\<rparr>) m"
  by (cases "pixelSample env"; cases "imageDimensions env")
    (auto simp: runExtractor_def extractImageMetadata_eq [OF assms(2)] pixelBlock_eq assms
      formatFieldsJustified_def stageKeeps_def basicMetadata_def)

lemma runExtractor_media:
  assumes "selectExtractor f = MediaExtractor"
  shows "\<exists>m. runExtractor env f ((basicMetadata env f)\<lparr>fileSignature := Some sg\<rparr>) MediaExtractor
               = fulfilled m
             \<and> formatFieldsJustified env f m
             \<and> stageKeeps ((basicMetadata env f)\<lparr>fileSignature := Some sg\<rparr>) m"
  by (cases "mediaInfo env")
    (auto simp: runExtractor_def extractMediaMetadata_eq assms
      formatFieldsJustified_def stageKeeps_def basicMetadata_def)

lemma runExtractor_document:
  assumes "selectExtractor f = DocumentExtractor"
  shows "\<exists>m. runExtractor env f ((basicMetadata env f)\<lparr>fileSignature := Some sg\<rparr>) DocumentExtractor
               = fulfilled m
             \<and> formatFieldsJustified env f m
             \<and> stageKeeps ((basicMetadata env f)\<lparr>fileSignature := Some sg\<rparr>) m"
  by (cases "file_readable f")
    (auto simp: runExtractor_def extractPDFMetadata_eq pdfInfoFields_eq assms
      formatFieldsJustified_def stageKeeps_def basicMetadata_def split: option.splits)

lemma runExtractor_text:
  assumes "selectExtractor f = TextExtractor"
  shows "\<exists>m. runExtractor env f ((basicMetadata env f)\<lparr>fileSignature := Some sg\<rparr>) TextExtractor
               = fulfilled m
             \<and> formatFieldsJustified env f m
             \<and> stageKeeps ((basicMetadata env f)\<lparr>fileSignature := Some sg\<rparr>) m"
  by (cases "file_readable f")
    (auto simp: runExtractor_def extractTextMetadata_eq assms
      formatFieldsJustified_def stageKeeps_def basicMetadata_def)

lemma runExtractor_archive:
  assumes "selectExtractor f = ArchiveExtractor"
  shows "\<exists>m. runExtractor env f ((basicMetadata env f)\<lparr>fileSignature := Some sg\<rparr>) ArchiveExtractor
               = fulfilled m
             \<and> formatFieldsJustified env f m
             \<and> stageKeeps ((basicMetadata env f)\<lparr>fileSignature := Some sg\<rparr>) m"
proof -
  let ?m0 = "(basicMetadata env f)\<lparr>fileSignature := Some sg\<rparr>"
  obtain r where r: "extractArchiveMetadata env f ?m0 = fulfilled (?m0\<lparr>compressionRatio := r\<rparr>)"
    and n: "\<not> (file_readable f \<and> take 4 (file_bytes f) = zipHeaderBytes)
            \<longrightarrow> r = compressionRatio ?m0"
    using extractArchiveMetadata_eq [of env f ?m0] by blast
  have "formatFieldsJustified env f (?m0\<lparr>compressionRatio := r\<rparr>)"
    using n by (auto simp: formatFieldsJustified_def basicMetadata_def assms)
  moreover have "stageKeeps ?m0 (?m0\<lparr>compressionRatio := r\<rparr>)"
    by (simp add: stageKeeps_def)
  ultimately show ?thesis
    using r by (simp add: runExtractor_def fulfilled_inject)
qed

lemma runExtractor_none:
  assumes "selectExtractor f = NoExtractor"
  shows "\<exists>m. runExtractor env f ((basicMetadata env f)\<lparr>fileSignature := Some sg\<rparr>) NoExtractor
               = fulfilled m
             \<and> formatFieldsJustified env f m
             \<and> stageKeeps ((basicMetadata env f)\<lparr>fileSignature := Some sg\<rparr>) m"
  by (simp add: runExtractor_def basic_fields stageKeeps_def fulfilled_inject)

lemma runExtractor_pending:
  assumes "startsWith (file_type f) (lit ''image/'')" and "exifTags env = None"
  shows "runExtractor env f m (selectExtractor f) = None"
  using assms select_image [of f]
  by (simp add: runExtractor_def extractImageMetadata_pending)

lemma runExtractor_settles:
  assumes "startsWith (file_type f) (lit ''image/'') \<longrightarrow> exifTags env \<noteq> None"
  shows "\<exists>m. runExtractor env f ((basicMetadata env f)\<lparr>fileSignature := Some sg\<rparr>)
                 (selectExtractor f) = fulfilled m
             \<and> formatFieldsJustified env f m
             \<and> stageKeeps ((basicMetadata env f)\<lparr>fileSignature := Some sg\<rparr>) m"
proof (cases "selectExtractor f")
  case ImageExtractor
  with assms select_image [of f] obtain tags where "exifTags env = Some tags" by auto
  with ImageExtractor show ?thesis using runExtractor_image by simp
next
  case MediaExtractor
  then show ?thesis using runExtractor_media by simp
next
  case DocumentExtractor
  then show ?thesis using runExtractor_document by simp
next
  case TextExtractor
  then show ?thesis using runExtractor_text by simp
next
  case ArchiveExtractor
  then show ?thesis using runExtractor_archive by simp
next
  case NoExtractor
  then show ?thesis using runExtractor_none by simp
qed

lemma universal_update:
  assumes "formatFieldsJustified env f m"
  shows "formatFieldsJustified env f
           (m\<lparr>checksum := a, md5_field := b, entropy := c, isExecutable := d, isEncrypted := e,
              hasMetadata := h, processingTime := t\<rparr>)"
  using assms by (simp add: formatFieldsJustified_def)

lemma extractMetadata_pending:
  assumes "startsWith (file_type f) (lit ''image/'')" and "exifTags env = None"
  shows "extractMetadata env f = None"
  by (simp add: extractMetadata_def getFileSignature_eq promise_simps
      runExtractor_pending [OF assms])

lemma extractMetadata_settles:
  assumes "startsWith (file_type f) (lit ''image/'') \<longrightarrow> exifTags env \<noteq> None"
  shows "\<exists>r. extractMetadata env f = fulfilled r
             \<and> formatFieldsJustified env f r \<and> identityFields env f r
             \<and> universalFields env f r"
proof -
  let ?sg = "if file_readable f
             then toUpperCaseAscii (join (lit '' '') (map hexByte (take 16 (file_bytes f))))
             else []"
  let ?m0 = "(basicMetadata env f)\<lparr>fileSignature := Some ?sg\<rparr>"
  obtain m where m: "runExtractor env f ?m0 (selectExtractor f) = fulfilled m"
    and j: "formatFieldsJustified env f m" and k: "stageKeeps ?m0 m"
    using runExtractor_settles [OF assms] by blast
  obtain embedded where h: "hasEmbeddedMetadata env f = fulfilled embedded"
    and hv: "embedded = (if startsWith (file_type f) (lit ''image/'')
                 then (case exifTags env of None \<Rightarrow> False | Some tags \<Rightarrow> length tags > 0)
                 else file_type f = lit ''application/pdf'' \<and> file_readable f
                      \<and> (str_includes (decodeLatin1 env (take 2048 (file_bytes f))) (lit ''/Info'')
                         \<or> str_includes (decodeLatin1 env (take 2048 (file_bytes f)))
                              (lit ''/Metadata'')))"
  proof (cases "startsWith (file_type f) (lit ''image/'')")
    case True
    with assms obtain tags where "exifTags env = Some tags" by auto
    with True that show ?thesis by (simp add: hasEmbeddedMetadata_image)
  next
    case False
    with that show ?thesis by (simp add: hasEmbeddedMetadata_other)
  qed
  let ?r = "m\<lparr>checksum := Some (if file_readable f then hexString (sha256 (file_bytes f)) else []),
              md5_field := Some (if file_readable f then hexString (sha1 (file_bytes f)) else []),
              entropy := Some (if file_readable f
                               then entropyOf (take (1024 * 1024) (file_bytes f)) else 0),
              isExecutable := Some (isExecutableFile env (file_name f)),
              isEncrypted := Some (file_readable f
                 \<and> (list_ex (signatureMatches (take 1024 (file_bytes f))) encryptionSignatures
                    \<or> entropyOf (take (1024 * 1024) (file_bytes f)) > 7.5)),
              hasMetadata := Some embedded,
              processingTime := Some (roundHundredths (numSub (endTime env) (startTime env)))\<rparr>"
  have e: "extractMetadata env f = fulfilled ?r"
    by (simp only: extractMetadata_def getFileSignature_eq m calculateChecksum_eq_sha256
        calculateChecksum_eq_md5 calculateEntropy_eq detectEncryption_eq h promise_simps)
  have "formatFieldsJustified env f ?r"
    using j by (rule universal_update)
  moreover have "identityFields env f ?r"
    using k by (simp add: identityFields_def stageKeeps_def basicMetadata_def)
  moreover have "universalFields env f ?r"
    by (simp add: universalFields_def hv)
  ultimately show ?thesis
    using e by blast
qed


lemma tryCatch_handled: "tryCatch p (\<lambda>error. fulfilled v) \<noteq> rejected e"
  by (cases p rule: option.exhaust; cases "the p")
    (simp_all add: tryCatch_def fulfilled_def rejected_def)

lemma await_not_rejected:
  assumes "p \<noteq> rejected e" and "\<And>v. k v \<noteq> rejected e"
  shows "await p k \<noteq> rejected e"
proof (cases p)
  case None
  then show ?thesis by (simp add: await_def rejected_def)
next
  case (Some s)
  with assms show ?thesis by (cases s) (simp_all add: await_def rejected_def)
qed

lemma runExtractor_not_rejected: "runExtractor env f m x \<noteq> rejected e"
proof (cases x)
  case ImageExtractor
  have "extractImageMetadata env f m \<noteq> rejected e"
    unfolding extractImageMetadata_def
    by (intro await_not_rejected)
      (simp_all add: imageDimensionsBlock_def exifBlock_def pixelBlock_def tryCatch_handled)
  with ImageExtractor show ?thesis by (simp add: runExtractor_def)
next
  case MediaExtractor
  then show ?thesis by (simp add: runExtractor_def extractMediaMetadata_def tryCatch_handled)
next
  case DocumentExtractor
  then show ?thesis by (simp add: runExtractor_def extractPDFMetadata_def tryCatch_handled)
next
  case TextExtractor
  then show ?thesis by (simp add: runExtractor_def extractTextMetadata_def tryCatch_handled)
next
  case ArchiveExtractor
  then show ?thesis by (simp add: runExtractor_def extractArchiveMetadata_def tryCatch_handled)
next
  case NoExtractor
  then show ?thesis by (simp add: runExtractor_def fulfilled_def rejected_def)
qed

lemma analyzers_not_rejected:
  "getFileSignature f \<noteq> rejected e"
  "calculateChecksum f algorithm \<noteq> rejected e"
  "calculateEntropy f \<noteq> rejected e"
  "detectEncryption f \<noteq> rejected e"
  "hasEmbeddedMetadata env f \<noteq> rejected e"
  by (simp_all add: getFileSignature_def calculateChecksum_def calculateEntropy_def
      detectEncryption_def hasEmbeddedMetadata_def tryCatch_handled)

lemma isFulfilled_pending: "\<not> isFulfilled None"
  by (simp add: isFulfilled_def)

lemma fulfilled_not_rejected: "fulfilled v \<noteq> rejected e"
  by (simp add: fulfilled_def rejected_def)

lemma pending_not_rejected: "None \<noteq> rejected e"
  by (simp add: rejected_def)

text \<open>
  C3, amended. \<open>extractMetadata\<close> surfaces no failure at all, also when the bytes of the
  file cannot be read: no stage is ever rejected, each catches what fails inside it. The
  call returns a record unless the file has an image type and the EXIF library never calls
  back, in which case it stays pending. In the record returned the identity fields and the
  signature are assembled, and a field of a format extractor is present only where that
  extractor was selected and its step succeeded: a failed step leaves its fields absent.
\<close>

theorem extract_never_rejects:
  "extractMetadata env f \<noteq> rejected e
   \<and> getFileSignature f \<noteq> rejected e
   \<and> runExtractor env f m x \<noteq> rejected e
   \<and> calculateChecksum f algorithm \<noteq> rejected e
   \<and> calculateEntropy f \<noteq> rejected e
   \<and> detectEncryption f \<noteq> rejected e
   \<and> hasEmbeddedMetadata env f \<noteq> rejected e
   \<and> (isFulfilled (extractMetadata env f)
        \<longleftrightarrow> (startsWith (file_type f) (lit ''image/'') \<longrightarrow> exifTags env \<noteq> None))
   \<and> (extractMetadata env f = fulfilled r
        \<longrightarrow> identityFields env f r \<and> formatFieldsJustified env f r)"
proof (cases "startsWith (file_type f) (lit ''image/'') \<longrightarrow> exifTags env \<noteq> None")
  case True
  then obtain r' where r': "extractMetadata env f = fulfilled r'"
    "formatFieldsJustified env f r'" "identityFields env f r'"
    using extractMetadata_settles by blast
  have a: "extractMetadata env f \<noteq> rejected e"
    using r'(1) by (simp add: fulfilled_not_rejected)
  have b: "isFulfilled (extractMetadata env f)"
    using r'(1) by (simp add: isFulfilled_fulfilled)
  have c: "extractMetadata env f = fulfilled r
      \<longrightarrow> identityFields env f r \<and> formatFieldsJustified env f r"
    using r' by (auto simp: fulfilled_inject)
  from a b c True show ?thesis
    using runExtractor_not_rejected analyzers_not_rejected by blast
next
  case False
  then have p: "extractMetadata env f = None"
    using extractMetadata_pending by simp
  have a: "extractMetadata env f \<noteq> rejected e"
    using p by (simp add: pending_not_rejected)
  have b: "\<not> isFulfilled (extractMetadata env f)"
    using p by (simp add: isFulfilled_pending)
  have c: "extractMetadata env f = fulfilled r
      \<longrightarrow> identityFields env f r \<and> formatFieldsJustified env f r"
    using p by (simp add: fulfilled_def)
  from a b c False show ?thesis
    using runExtractor_not_rejected analyzers_not_rejected by blast
qed

text \<open>
  C3, as stated, fails: a file whose bytes cannot be read still gets a record, no failure
  is surfaced.
\<close>

theorem unreadable_file_counterexample:
  "arrayBuffer (mkFile ''notes.txt'' ''text/plain'' [104, 105] False) = rejected NotReadableError
   \<and> isFulfilled (extractMetadata testPlatform
        (mkFile ''notes.txt'' ''text/plain'' [104, 105] False))"
proof -
  let ?f = "mkFile ''notes.txt'' ''text/plain'' [104, 105] False"
  have "startsWith (file_type ?f) (lit ''image/'') \<longrightarrow> exifTags testPlatform \<noteq> None"
    by (simp add: testPlatform_def)
  then obtain r where "extractMetadata testPlatform ?f = fulfilled r"
    using extractMetadata_settles by blast
  then have "isFulfilled (extractMetadata testPlatform ?f)"
    by (simp add: isFulfilled_fulfilled)
  moreover have "arrayBuffer ?f = rejected NotReadableError"
    by (simp add: arrayBuffer_def mkFile_def)
  ultimately show ?thesis by simp
qed

theorem extract_never_rejects_witness:
  "isFulfilled (extractMetadata testPlatform (mkFile ''photo.png'' ''image/png'' [1, 2, 3] True))
   \<and> \<not> isFulfilled (extractMetadata (testPlatform\<lparr>exifTags := None\<rparr>)
          (mkFile ''photo.png'' ''image/png'' [1, 2, 3] True))
   \<and> extractMetadata (testPlatform\<lparr>exifTags := None\<rparr>)
          (mkFile ''photo.png'' ''image/png'' [1, 2, 3] True) \<noteq> rejected DecodeError
   \<and> isFulfilled (extractMetadata (testPlatform\<lparr>exifTags := None\<rparr>)
          (mkFile ''a.bin'' [] [1, 2, 3] False))"
proof -
  let ?f = "mkFile ''photo.png'' ''image/png'' [1, 2, 3] True"
  let ?g = "mkFile ''a.bin'' [] [1, 2, 3] False"
  let ?env = "testPlatform\<lparr>exifTags := None\<rparr>"
  have t: "startsWith (file_type ?f) (lit ''image/'')" "\<not> startsWith (file_type ?g) (lit ''image/'')"
    by (simp_all add: mkFile_def startsWith_def lit_def)
  have x: "exifTags testPlatform \<noteq> None" "exifTags ?env = None"
    by (simp_all add: testPlatform_def)
  have "isFulfilled (extractMetadata testPlatform ?f)"
    using extract_never_rejects [where env = testPlatform and f = ?f] x(1) by blast
  moreover have "\<not> isFulfilled (extractMetadata ?env ?f)"
    using extract_never_rejects [where env = ?env and f = ?f] t(1) x(2) by blast
  moreover have "extractMetadata ?env ?f \<noteq> rejected DecodeError"
    using extract_never_rejects [where env = ?env and f = ?f and e = DecodeError] by blast
  moreover have "isFulfilled (extractMetadata ?env ?g)"
    using extract_never_rejects [where env = ?env and f = ?g] t(2) by blast
  ultimately show ?thesis by blast
qed

text \<open>
  C2, amended. In the record that \<open>extractMetadata\<close> returns, a field of a format extractor
  is present only if that extractor is the one selected for the file and the step that
  assigns it succeeded; the fields of the universal analyzers (the signature, the two
  digests, the entropy, the executable, encryption and embedded-metadata flags and the
  processing time) are always present, with the empty string, zero or false in place of
  what could not be computed.
\<close>

theorem optional_fields_presence:
  assumes "extractMetadata env f = fulfilled r"
  shows "formatFieldsJustified env f r \<and> universalFields env f r
         \<and> fileSignature r
             = Some (if file_readable f
                     then toUpperCaseAscii (join (lit '' '') (map hexByte (take 16 (file_bytes f))))
                     else [])"
proof -
  have "startsWith (file_type f) (lit ''image/'') \<longrightarrow> exifTags env \<noteq> None"
  proof (rule ccontr)
    assume "\<not> (startsWith (file_type f) (lit ''image/'') \<longrightarrow> exifTags env \<noteq> None)"
    then have "extractMetadata env f = None"
      using extractMetadata_pending by simp
    with assms show False by (simp add: fulfilled_def)
  qed
  then obtain r' where r': "extractMetadata env f = fulfilled r'"
    "formatFieldsJustified env f r'" "identityFields env f r'" "universalFields env f r'"
    using extractMetadata_settles by blast
  with assms have "r' = r" by (simp add: fulfilled_inject)
  with r' show ?thesis by (simp add: identityFields_def)
qed

text \<open>
  C2, as stated, fails: for a file whose bytes cannot be read, the digest is the empty
  string, the entropy zero and the flags false, not absent.
\<close>

theorem placeholder_counterexample:
  "map_option checksum
      (promiseValue (extractMetadata testPlatform (mkFile ''a.bin'' [] [1, 2, 3] False)))
     = Some (Some [])
   \<and> map_option md5_field
      (promiseValue (extractMetadata testPlatform (mkFile ''a.bin'' [] [1, 2, 3] False)))
     = Some (Some [])
   \<and> map_option entropy
      (promiseValue (extractMetadata testPlatform (mkFile ''a.bin'' [] [1, 2, 3] False)))
     = Some (Some 0)
   \<and> map_option isEncrypted
      (promiseValue (extractMetadata testPlatform (mkFile ''a.bin'' [] [1, 2, 3] False)))
     = Some (Some False)
   \<and> map_option hasMetadata
      (promiseValue (extractMetadata testPlatform (mkFile ''a.bin'' [] [1, 2, 3] False)))
     = Some (Some False)
   \<and> map_option fileSignature
      (promiseValue (extractMetadata testPlatform (mkFile ''a.bin'' [] [1, 2, 3] False)))
     = Some (Some [])"
proof -
  let ?f = "mkFile ''a.bin'' [] [1, 2, 3] False"
  have t: "\<not> startsWith (file_type ?f) (lit ''image/'')" "\<not> file_readable ?f"
    "file_type ?f \<noteq> lit ''application/pdf''"
    by (simp_all add: mkFile_def startsWith_def lit_def)
  then obtain r where r: "extractMetadata testPlatform ?f = fulfilled r"
    and i: "identityFields testPlatform ?f r" and u: "universalFields testPlatform ?f r"
    using extractMetadata_settles [of ?f testPlatform] by blast
  have v: "promiseValue (extractMetadata testPlatform ?f) = Some r"
    by (simp add: r promiseValue_def fulfilled_def)
  from u t have "checksum r = Some []" "md5_field r = Some []" "entropy r = Some 0"
    "isEncrypted r = Some False" "hasMetadata r = Some False"
    by (simp_all add: universalFields_def)
  moreover from i t have "fileSignature r = Some []"
    by (simp add: identityFields_def)
  ultimately show ?thesis
    by (simp add: v)
qed

theorem optional_fields_presence_witness:
  "map_option compressionRatio
      (promiseValue (extractMetadata testPlatform (mkFile ''notes.txt'' ''text/plain'' [104, 105] True)))
     = Some None
   \<and> map_option dimensions
      (promiseValue (extractMetadata testPlatform (mkFile ''notes.txt'' ''text/plain'' [104, 105] True)))
     = Some None
   \<and> map_option checksum
      (promiseValue (extractMetadata testPlatform (mkFile ''notes.txt'' ''text/plain'' [104, 105] True)))
     = Some (Some (hexString (sha256 [104, 105])))
   \<and> map_option fileSignature
      (promiseValue (extractMetadata testPlatform (mkFile ''notes.txt'' ''text/plain'' [104, 105] True)))
     = Some (Some (lit ''68 69''))"
proof -
  let ?f = "mkFile ''notes.txt'' ''text/plain'' [104, 105] True"
  have t: "\<not> startsWith (file_type ?f) (lit ''image/'')" "file_readable ?f"
    "file_bytes ?f = [104, 105]" "selectExtractor ?f = TextExtractor"
    by (simp_all add: mkFile_def startsWith_def endsWith_def selectExtractor_def lit_def)
  then obtain r where r: "extractMetadata testPlatform ?f = fulfilled r"
    using extractMetadata_settles [of ?f testPlatform] by blast
  have v: "promiseValue (extractMetadata testPlatform ?f) = Some r"
    by (simp add: r promiseValue_def fulfilled_def)
  note p = optional_fields_presence [OF r]
  from p have j: "formatFieldsJustified testPlatform ?f r"
    by (rule conjunct1)
  from p have u: "universalFields testPlatform ?f r"
    by (rule conjunct2 [THEN conjunct1])
  from p have s: "fileSignature r
      = Some (if file_readable ?f
              then toUpperCaseAscii (join (lit '' '') (map hexByte (take 16 (file_bytes ?f))))
              else [])"
    by (rule conjunct2 [THEN conjunct2])
  have "compressionRatio r = None"
  proof (rule ccontr)
    assume "compressionRatio r \<noteq> None"
    with j t show False by (simp add: formatFieldsJustified_def)
  qed
  moreover have "dimensions r = None"
  proof (rule ccontr)
    assume "dimensions r \<noteq> None"
    with j t show False by (simp add: formatFieldsJustified_def)
  qed
  moreover from u t have "checksum r = Some (hexString (sha256 [104, 105]))"
    by (simp add: universalFields_def)
  moreover from s t have "fileSignature r = Some (lit ''68 69'')"
    by (simp add: toUpperCaseAscii_def hexByte_eq hexDigit_def lit_def)
  ultimately show ?thesis
    by (simp add: v)
qed

section \<open>The digest fields\<close>

subsection \<open>Test vectors\<close>

text \<open>The three digests of the empty message, as the standards list them.\<close>

lemma schedule256_numeral:
  "schedule256 (numeral n) ws = schedule256 (pred_numeral n)
       (add32 (add32 (add32 (sigma1 (ws ! 1)) (ws ! 6)) (sigma0 (ws ! 14))) (ws ! 15) # ws)"
  by (simp add: numeral_eq_Suc)

lemma schedule1_numeral:
  "schedule1 (numeral n) ws =
     schedule1 (pred_numeral n) (rotl32 1 (ws ! 2 XOR ws ! 7 XOR ws ! 13 XOR ws ! 15) # ws)"
  by (simp add: numeral_eq_Suc)

lemma upt_numeral_rec:
  "[m..<numeral n] = (if m < numeral n then m # [m + 1..<numeral n] else [])"
  by (simp add: upt_rec [of m])

lemmas hash_ev = Ch_def Maj_def Parity_def Sigma0_def Sigma1_def sigma0_def sigma1_def
  rotr32_def rotl32_def shift256_def add32_def not32_def pad_zeros_def sha_pad_def md5_pad_def
  length_be64_def be32_def bytes_be_def bytes_le_def hexString_def hexByte_def padStart_def
  hexDigit_def lit_def schedule256_numeral schedule1_numeral replicate_numeral

lemma sha256_empty:
  "hexString (sha256 []) =
     lit ''e3b0c44298fc1c149afbf4c8996fb92427ae41e4649b934ca495991b7852b855''"
  by (simp add: hash_ev K256_def H256_def compress256_def sha256_def)

lemma sha1_empty: "hexString (sha1 []) = lit ''da39a3ee5e6b4b0d3255bfef95601890afd80709''"
  by (simp add: hash_ev H1_def f1_def K1_def compress1_def sha1_def upt_numeral_rec)

lemma md5_empty: "hexString (md5 []) = lit ''d41d8cd98f00b204e9800998ecf8427e''"
  by (simp add: hash_ev md5_K_def md5_s_def md5_H_def md5_f_def md5_g_def md5_compress_def
      md5_def upt_numeral_rec)

subsection \<open>The two digest fields\<close>

text \<open>
  C6. The SHA-256 checksum of a readable file is the lowercase hexadecimal SHA-256 digest
  of its bytes, 64 characters long: two files with the same bytes have the same
  checksum, whatever their names, MIME types and time stamps.
\<close>

theorem sha256_content_addressed:
  assumes "file_readable f" and "file_readable g" and "file_bytes f = file_bytes g"
  shows "calculateChecksum f (lit ''SHA-256'') = calculateChecksum g (lit ''SHA-256'')
         \<and> calculateChecksum f (lit ''SHA-256'') = fulfilled (hexString (sha256 (file_bytes f)))
         \<and> length (hexString (sha256 (file_bytes f))) = 64
         \<and> list_all lowerHex (hexString (sha256 (file_bytes f)))"
  using assms
  by (simp add: calculateChecksum_sha256 hexString_def length_hex length_sha256 hexString_lower)


theorem sha256_content_addressed_witness:
  "calculateChecksum (mkFile ''a.txt'' ''text/plain'' [] True) (lit ''SHA-256'')
     = calculateChecksum ((mkFile ''b.bin'' [] [] True)\<lparr>file_lastModified := 42\<rparr>) (lit ''SHA-256'')
   \<and> calculateChecksum (mkFile ''a.txt'' ''text/plain'' [] True) (lit ''SHA-256'')
     = fulfilled (lit ''e3b0c44298fc1c149afbf4c8996fb92427ae41e4649b934ca495991b7852b855'')"
proof -
  let ?f = "mkFile ''a.txt'' ''text/plain'' [] True"
  let ?g = "(mkFile ''b.bin'' [] [] True)\<lparr>file_lastModified := 42\<rparr>"
  have r: "file_readable ?f" "file_readable ?g" "file_bytes ?f = file_bytes ?g"
    by (simp_all add: mkFile_def)
  have b: "file_bytes ?f = []"
    by (simp add: mkFile_def)
  note t = sha256_content_addressed [OF r]
  from t have "calculateChecksum ?f (lit ''SHA-256'') = calculateChecksum ?g (lit ''SHA-256'')"
    by (rule conjunct1)
  moreover from t have "calculateChecksum ?f (lit ''SHA-256'')
      = fulfilled (hexString (sha256 (file_bytes ?f)))"
    by (rule conjunct2 [THEN conjunct1])
  ultimately show ?thesis
    by (simp only: b sha256_empty)
qed

text \<open>
  C1. The claim asks for the MD5 digest in the \<open>md5\<close> field. The code computes that
  field by \<open>calculateChecksum\<close> with the label \<open>MD5\<close>, which returns the SHA-1 digest
  of the bytes: 40 hexadecimal characters, where the MD5 digest has 32, so the two differ
  on every readable file.
\<close>

theorem md5_field_is_sha1:
  assumes "file_readable f"
  shows "calculateChecksum f (lit ''MD5'') = fulfilled (hexString (sha1 (file_bytes f)))
         \<and> length (hexString (sha1 (file_bytes f))) = 40
         \<and> length (hexString (md5 (file_bytes f))) = 32
         \<and> calculateChecksum f (lit ''MD5'') \<noteq> fulfilled (hexString (md5 (file_bytes f)))"
proof -
  have a: "length (hexString (sha1 (file_bytes f))) = 40"
    by (simp add: hexString_def length_hex length_sha1)
  have b: "length (hexString (md5 (file_bytes f))) = 32"
    by (simp add: hexString_def length_hex length_md5)
  from a b have "hexString (sha1 (file_bytes f)) \<noteq> hexString (md5 (file_bytes f))"
    by auto
  with a b assms show ?thesis
    by (simp add: calculateChecksum_md5 fulfilled_def)
qed


theorem md5_field_is_sha1_witness:
  "calculateChecksum (mkFile ''empty.bin'' [] [] True) (lit ''MD5'')
     = fulfilled (lit ''da39a3ee5e6b4b0d3255bfef95601890afd80709'')
   \<and> hexString (md5 []) = lit ''d41d8cd98f00b204e9800998ecf8427e''"
  using md5_field_is_sha1 [of "mkFile ''empty.bin'' [] [] True"]
  by (simp add: mkFile_def sha1_empty md5_empty)

end
